theory Spec2Isabelle
  imports Main
begin

section \<open>Strings as Python sees them\<close>

text \<open>
  Python strings are modelled as \<open>string\<close>; a character is a code point below 256.
  \<open>py_isspace\<close> is \<open>str.isspace\<close> on one character (the characters that
  \<open>str.strip()\<close> removes and that \<open>\s\<close> matches in a \<open>str\<close> pattern):
  tab, line feed, vertical tab, form feed, carriage return, the separators 28 to 31, space,
  next-line (133) and no-break space (160).
\<close>

definition py_isspace :: "char \<Rightarrow> bool" where
  "py_isspace c = (of_char c \<in> {9, 10, 11, 12, 13, 28, 29, 30, 31, 32, 133, 160 :: nat})"

definition py_strip :: "string \<Rightarrow> string" where
  "py_strip s = rev (dropWhile py_isspace (rev (dropWhile py_isspace s)))"

text \<open>\<open>s.startswith(p)\<close> and \<open>s.endswith(p)\<close>.\<close>

definition py_startswith :: "string \<Rightarrow> string \<Rightarrow> bool" where
  "py_startswith s p = (take (length p) s = p)"

definition py_endswith :: "string \<Rightarrow> string \<Rightarrow> bool" where
  "py_endswith s p = (length p \<le> length s \<and> drop (length s - length p) s = p)"

text \<open>\<open>sub in s\<close> for strings.\<close>

fun py_contains :: "string \<Rightarrow> string \<Rightarrow> bool" where
  "py_contains sub [] = (sub = [])"
| "py_contains sub (c # cs) = (if py_startswith (c # cs) sub then True else py_contains sub cs)"

text \<open>\<open>s.split('/')[-1]\<close>: what follows the last slash (all of \<open>s\<close> when it has none).\<close>

definition last_segment :: "string \<Rightarrow> string" where
  "last_segment s = rev (takeWhile (\<lambda>c. c \<noteq> CHR ''/'') (rev s))"

text \<open>\<open>' '.join(s.split())\<close>: the words of \<open>s\<close> (maximal runs without white space), joined by
  single spaces.\<close>

fun py_words :: "string \<Rightarrow> string \<Rightarrow> string list" where
  "py_words cur [] = (if cur = [] then [] else [cur])"
| "py_words cur (c # cs) =
     (if py_isspace c then (if cur = [] then py_words [] cs else cur # py_words [] cs)
      else py_words (cur @ [c]) cs)"

fun py_join :: "string \<Rightarrow> string list \<Rightarrow> string" where
  "py_join sep [] = []"
| "py_join sep [w] = w"
| "py_join sep (w # ws) = w @ sep @ py_join sep ws"

definition normalize_spaces :: "string \<Rightarrow> string" where
  "normalize_spaces s = py_join '' '' (py_words [] s)"

text \<open>\<open>str.lower()\<close> on code points below 256: A to Z, and the accented capitals 192 to 222
  except the multiplication sign 215, move up by 32.\<close>

definition py_lower_char :: "char \<Rightarrow> char" where
  "py_lower_char c =
     (let n = (of_char c :: nat) in
      if (65 \<le> n \<and> n \<le> 90) \<or> (192 \<le> n \<and> n \<le> 222 \<and> n \<noteq> 215) then char_of (n + 32) else c)"

definition py_lower :: "string \<Rightarrow> string" where
  "py_lower s = map py_lower_char s"

text \<open>\<open>str(n)\<close> for an integer: decimal digits, with a minus sign when negative.\<close>

fun digits_of :: "nat \<Rightarrow> string" where
  "digits_of n = (if n < 10 then [char_of (48 + n)] else digits_of (n div 10) @ [char_of (48 + n mod 10)])"

definition py_str :: "int \<Rightarrow> string" where
  "py_str i = (if i < 0 then CHR ''-'' # digits_of (nat (- i)) else digits_of (nat i))"

text \<open>\<open>x or y\<close> on attribute values: \<open>x\<close> when it is a non-empty string, else \<open>y\<close>.\<close>

fun py_or :: "string option \<Rightarrow> string option \<Rightarrow> string option" where
  "py_or None y = y"
| "py_or (Some x) y = (if x = [] then y else Some x)"

text \<open>Truthiness of an optional string: neither \<open>None\<close> nor empty.\<close>

fun truthy :: "string option \<Rightarrow> bool" where
  "truthy None = False"
| "truthy (Some x) = (x \<noteq> [])"

section \<open>Exceptions\<close>

text \<open>The exceptions that the modelled code can raise; all are subclasses of \<open>Exception\<close>.\<close>

datatype exn = WebDriverException | AttributeError | KeyError | TypeError | ValueError | IndexError

section \<open>Regular expressions\<close>

text \<open>
  The fragment of Python's \<open>re\<close> syntax that the patterns of the source use. A character
  class is a digit \<open>\d\<close>, white space \<open>\s\<close>, one character, a union \<open>[..]\<close> or a
  complement \<open>[^..]\<close>. Repetition is greedy and always over one character class (\<open>\d+\<close>,
  \<open>\s*\<close>, \<open>[\d,]+\<close>, \<open>\d{5}\<close>), with a minimum and an optional maximum count.
\<close>

datatype cclass = CDigit | CSpace | CChar char | CUnion cclass cclass | CNot cclass

fun cmem :: "cclass \<Rightarrow> char \<Rightarrow> bool" where
  "cmem CDigit c = (48 \<le> (of_char c :: nat) \<and> (of_char c :: nat) \<le> 57)"
| "cmem CSpace c = py_isspace c"
| "cmem (CChar d) c = (c = d)"
| "cmem (CUnion a b) c = (if cmem a c then True else cmem b c)"
| "cmem (CNot a) c = (\<not> cmem a c)"

datatype regex =
    Lit string
  | Rep cclass nat "nat option"
  | Seq regex regex
  | Alt regex regex
  | Opt regex
  | Grp regex
  | Eos

text \<open>
  \<open>rmatch r s g\<close> lists the ways \<open>r\<close> can match at the start of \<open>s\<close>, in the order a
  backtracking matcher tries them: each result is the unread rest of \<open>s\<close> and the texts of
  the capturing groups closed so far (\<open>g\<close> on entry). The head of the list is the match
  Python reports. \<open>Eos\<close> is \<open>$\<close> without the MULTILINE flag: the end of the string, or just
  before a final line feed.
\<close>

fun rmatch :: "regex \<Rightarrow> string \<Rightarrow> string list \<Rightarrow> (string \<times> string list) list" where
  "rmatch (Lit l) s g = (if py_startswith s l then [(drop (length l) s, g)] else [])"
| "rmatch (Rep c mn mx) s g =
     (let run = length (takeWhile (cmem c) s);
          k = (case mx of None \<Rightarrow> run | Some m \<Rightarrow> min m run)
      in if k < mn then [] else map (\<lambda>i. (drop i s, g)) (rev [mn ..< Suc k]))"
| "rmatch (Seq a b) s g = concat (map (\<lambda>(s', g'). rmatch b s' g') (rmatch a s g))"
| "rmatch (Alt a b) s g = rmatch a s g @ rmatch b s g"
| "rmatch (Opt a) s g = rmatch a s g @ [(s, g)]"
| "rmatch (Grp a) s g =
     map (\<lambda>(s', g'). (s', g' @ [take (length s - length s') s])) (rmatch a s g)"
| "rmatch Eos s g = (if s = [] \<or> s = [CHR 0x0A] then [(s, g)] else [])"

text \<open>A match object: the text before the match, the matched text (group 0) and the groups.\<close>

record py_match =
  m_before :: string
  m_whole :: string
  m_groups :: "string list"

text \<open>\<open>re.search(r, s)\<close>: the first match at the leftmost position that has one.\<close>

fun re_search_from :: "regex \<Rightarrow> string \<Rightarrow> string \<Rightarrow> py_match option" where
  "re_search_from r pre s =
     (case rmatch r s [] of
        (rest, g) # _ \<Rightarrow>
          Some \<lparr>m_before = pre, m_whole = take (length s - length rest) s, m_groups = g\<rparr>
      | [] \<Rightarrow> (case s of [] \<Rightarrow> None | c # cs \<Rightarrow> re_search_from r (pre @ [c]) cs))"

definition re_search :: "regex \<Rightarrow> string \<Rightarrow> py_match option" where
  "re_search r s = re_search_from r [] s"

text \<open>\<open>m.group(k)\<close>: group 0 is the whole match; a group number beyond the pattern's groups
  raises IndexError.\<close>

definition group :: "py_match \<Rightarrow> nat \<Rightarrow> exn + string" where
  "group m k =
     (if k = 0 then Inr (m_whole m)
      else if k \<le> length (m_groups m) then Inr (m_groups m ! (k - 1))
      else Inl IndexError)"

section \<open>Pattern extractors\<close>

text \<open>The patterns of \<open>extract_price\<close>, \<open>extract_beds_baths\<close> and \<open>extract_sqft\<close>:
  \<^verbatim>\<open>\$[\d,]+\<close>, \<^verbatim>\<open>(\d+)\s*(?:Bedroom|Bed|BR)\<close>, \<^verbatim>\<open>(\d+(?:\.\d+)?)\s*(?:Bathroom|Bath|BA)\<close>
  and \<^verbatim>\<open>([\d,]+)\s*sq\s*ft\<close>.\<close>

definition digit_or_comma :: cclass where
  "digit_or_comma = CUnion CDigit (CChar CHR '','')"

definition price_re :: regex where
  "price_re = Seq (Lit ''$'') (Rep digit_or_comma 1 None)"

definition beds_re :: regex where
  "beds_re = Seq (Grp (Rep CDigit 1 None))
               (Seq (Rep CSpace 0 None) (Alt (Lit ''Bedroom'') (Alt (Lit ''Bed'') (Lit ''BR''))))"

definition baths_re :: regex where
  "baths_re = Seq (Grp (Seq (Rep CDigit 1 None) (Opt (Seq (Lit ''.'') (Rep CDigit 1 None)))))
                (Seq (Rep CSpace 0 None) (Alt (Lit ''Bathroom'') (Alt (Lit ''Bath'') (Lit ''BA''))))"

definition sqft_re :: regex where
  "sqft_re = Seq (Grp (Rep digit_or_comma 1 None))
               (Seq (Rep CSpace 0 None) (Seq (Lit ''sq'') (Seq (Rep CSpace 0 None) (Lit ''ft''))))"

text \<open>
  The argument of an extractor is a string or \<open>None\<close>. \<open>if not text\<close> answers both
  \<open>None\<close> and the empty string. The result is \<open>Inl\<close> when the body raises.
\<close>

definition extract_price :: "string option \<Rightarrow> exn + string option" where
  "extract_price text =
     (case text of
        None \<Rightarrow> Inr None
      | Some t \<Rightarrow>
          if t = [] then Inr None
          else (case re_search price_re t of
                  None \<Rightarrow> Inr None
                | Some price_match \<Rightarrow> map_sum id Some (group price_match 0)))"

definition extract_beds_baths :: "string option \<Rightarrow> exn + (string option \<times> string option)" where
  "extract_beds_baths text =
     (case text of
        None \<Rightarrow> Inr (None, None)
      | Some t \<Rightarrow>
          if t = [] then Inr (None, None)
          else
            (let beds_match = re_search beds_re t;
                 baths_match = re_search baths_re t
             in case (case beds_match of None \<Rightarrow> Inr None
                      | Some m \<Rightarrow> map_sum id Some (group m 1)) of
                  Inl e \<Rightarrow> Inl e
                | Inr beds \<Rightarrow>
                    (case (case baths_match of None \<Rightarrow> Inr None
                           | Some m \<Rightarrow> map_sum id Some (group m 1)) of
                       Inl e \<Rightarrow> Inl e
                     | Inr baths \<Rightarrow> Inr (beds, baths))))"

definition extract_sqft :: "string option \<Rightarrow> exn + string option" where
  "extract_sqft text =
     (case text of
        None \<Rightarrow> Inr None
      | Some t \<Rightarrow>
          if t = [] then Inr None
          else (case re_search sqft_re (py_lower t) of
                  None \<Rightarrow> Inr None
                | Some sqft_match \<Rightarrow>
                    map_sum id (\<lambda>g. Some (filter (\<lambda>c. c \<noteq> CHR '','') g))
                      (group sqft_match 1)))"

section \<open>Feature bucketing of a home plan\<close>

text \<open>
  One entry of \<open>homeplan["includedFeatures"]\<close>: the stripped text of a list item and the
  bucket it was put in.
\<close>

record feature =
  description :: string
  section_index :: int

text \<open>
  A feature section of the plan page is represented by what the code reads from it:
  \<open>section.find('ul')\<close> (\<open>None\<close> when the section has no list) and, under it, the
  \<open>.text\<close> of every \<open>li\<close> of \<open>ul.find_all('li')\<close>, in document order.
\<close>

type_synonym feature_section = "string list option"

text \<open>The first loop: \<open>total_features += len(section.find('ul').find_all('li'))\<close>.\<close>

fun count_total_features :: "feature_section list \<Rightarrow> int \<Rightarrow> int" where
  "count_total_features [] total_features = total_features"
| "count_total_features (None # secs) total_features =
     count_total_features secs total_features"
| "count_total_features (Some lis # secs) total_features =
     count_total_features secs (total_features + int (length lis))"

text \<open>\<open>features_per_section = total_features // 4 if total_features > 0 else 0\<close>\<close>

definition features_per_section :: "int \<Rightarrow> int" where
  "features_per_section total_features =
     (if total_features > 0 then total_features div 4 else 0)"

text \<open>
  The state of the second loop: the features appended so far, \<open>current_section\<close> and
  \<open>feature_count\<close>.
\<close>

type_synonym bucket_state = "feature list \<times> int \<times> int"

text \<open>The inner loop \<open>for li in ul.find_all('li')\<close>.\<close>

fun bucket_items :: "int \<Rightarrow> string list \<Rightarrow> bucket_state \<Rightarrow> bucket_state" where
  "bucket_items fps [] st = st"
| "bucket_items fps (li # lis) (feats, current_section, feature_count) =
     (let feature_text = py_strip li in
      if feature_text \<noteq> [] then
        (let feats' = feats @ [\<lparr>description = feature_text, section_index = current_section\<rparr>];
             feature_count' = feature_count + 1;
             current_section' =
               (if feature_count' \<ge> (current_section + 1) * fps
                then min (current_section + 1) 3 else current_section)
         in bucket_items fps lis (feats', current_section', feature_count'))
      else bucket_items fps lis (feats, current_section, feature_count))"

text \<open>The outer loop \<open>for section in feature_sections\<close> with its \<open>if ul:\<close>.\<close>

fun bucket_sections :: "int \<Rightarrow> feature_section list \<Rightarrow> bucket_state \<Rightarrow> bucket_state" where
  "bucket_sections fps [] st = st"
| "bucket_sections fps (None # secs) st = bucket_sections fps secs st"
| "bucket_sections fps (Some lis # secs) st =
     bucket_sections fps secs (bucket_items fps lis st)"

text \<open>
  Lines 399 to 427 together: count, derive the per-section size, then assign. The result is
  the final \<open>homeplan["includedFeatures"]\<close>.
\<close>

definition included_features :: "feature_section list \<Rightarrow> feature list" where
  "included_features feature_sections =
     (let total_features = count_total_features feature_sections 0;
          fps = features_per_section total_features
      in fst (bucket_sections fps feature_sections ([], 0, 0)))"

text \<open>All list items of a page, in the order the loops visit them.\<close>

definition all_items :: "feature_section list \<Rightarrow> string list" where
  "all_items secs = concat (map (\<lambda>s. case s of None \<Rightarrow> [] | Some lis \<Rightarrow> lis) secs)"


section \<open>The output record\<close>

text \<open>
  The dictionaries that \<open>fetch_page\<close> builds, one record per dictionary shape. A field keeps
  its key as name, with a prefix where two dictionaries share a key (\<open>hs_\<close> for a home site,
  \<open>hp_\<close> and \<open>pd_\<close> for a home plan and its details, \<open>np_\<close> for a nearby place, \<open>c_\<close> for
  the community). A value that may be \<open>None\<close> is an option.
\<close>

record nearby_place =
  np_name :: string
  np_category :: "string option"
  np_distance :: "string option"
  np_rating :: "string option"
  np_reviews :: "string option"

record homesite =
  hs_address :: "string option"
  hs_name :: "string option"
  hs_plan :: "string option"
  hs_id :: string
  hs_price :: "string option"
  hs_beds :: "string option"
  hs_baths :: "string option"
  hs_sqft :: "string option"
  hs_status :: string
  hs_image_url :: "string option"
  hs_url :: "string option"
  hs_latitude :: "string option"
  hs_longitude :: "string option"
  hs_overview :: "string option"
  hs_images :: "string list"

record floorplan_image =
  fi_name :: string
  fi_image_url :: string

record plan_details =
  pd_price :: "string option"
  pd_beds :: "string option"
  pd_baths :: "string option"
  pd_half_baths :: "string option"
  pd_sqft :: "string option"
  pd_status :: string
  pd_image_url :: "string option"

record homeplan =
  hp_name :: "string option"
  hp_url :: "string option"
  hp_details :: plan_details
  hp_floorplan_images :: "floorplan_image list"
  hp_includedFeatures :: "feature list"

record address_block =
  city :: "string option"
  state :: "string option"
  market :: "string option"

record location =
  latitude :: "string option"
  longitude :: "string option"
  loc_address :: address_block

record details =
  price_range :: "string option"
  sqft_range :: "string option"
  bed_range :: "string option"
  bath_range :: "string option"
  stories_range :: "string option"
  community_count :: int

record community =
  timestamp :: string
  c_name :: "string option"
  c_status :: "string option"
  c_url :: string
  price_from :: "string option"
  c_address :: "string option"
  phone :: "string option"
  c_description :: "string option"
  c_images :: "string list"
  c_location :: location
  c_details :: details
  amenities :: "string list"
  homeplans :: "homeplan list"
  homesites :: "homesite list"
  nearbyplaces :: "nearby_place list"
  collections :: "string list"

section \<open>What the code reads from a parsed page\<close>

text \<open>
  The HTML parser is a library. A parsed page is represented by the answers to the queries
  that \<open>fetch_page\<close> puts to it, nested as the queries nest; \<open>find\<close> answering \<open>None\<close> is
  \<open>None\<close> here, \<open>find_all\<close> answers a list, \<open>.text\<close> is the raw text before \<open>strip()\<close>.
  A tag is always truthy, so \<open>if tag:\<close> asks whether \<open>find\<close> found one.
\<close>

text \<open>The \<open>src\<close> and \<open>data-csrc\<close> attributes of an image tag (\<open>tag.get(..)\<close>).\<close>

record img_attrs =
  a_src :: "string option"
  a_data_csrc :: "string option"

text \<open>An \<open>h3\<close>: its text and \<open>h3.find('a')\<close>, the link carrying its \<open>href\<close> attribute when
  it has one.\<close>

record h3_elem =
  h3_text :: string
  h3_a :: "string option option"

text \<open>A labelled column: \<open>col.find('h3')\<close> with its text and the text of
  \<open>h3.find_next_sibling('span')\<close>.\<close>

type_synonym column = "(string \<times> string option) option"

text \<open>\<open>div#community-driving-directions--location\<close>: the \<open>p\<close> text inside its
  \<open>div.has-dividers\<close>, and the two coordinate attributes.\<close>

record location_elem =
  le_has_dividers :: "string option option"
  le_data_lat :: "string option"
  le_data_long :: "string option"

text \<open>A \<open>div.multicol\<close> group: its \<open>h5\<close> text and the texts of its \<open>span.plain\<close>.\<close>

record multicol =
  mc_h5 :: "string option"
  mc_plain :: "string list"

text \<open>\<open>div.mid\<close> of a quick-move-in card.\<close>

record mid_block =
  mid_p :: "string option"
  mid_h3 :: "h3_elem option"
  mid_top_details :: "string option"
  mid_bottom_details :: "string option"

text \<open>A \<open>div.qmi-vertical\<close>: \<open>div.content\<close> and in it \<open>div.mid\<close>; \<open>div.image\<close> and in it
  \<open>img\<close>.\<close>

record qmi =
  qmi_content :: "mid_block option option"
  qmi_image :: "img_attrs option option"

text \<open>\<open>div.image\<close> of a floor-plan card: the lazy-load script with its \<open>.string\<close>, and the
  plain \<open>img\<close>.\<close>

record image_container =
  ic_lazy_script :: "string option option"
  ic_img :: "img_attrs option"

text \<open>A \<open>div.floorplan-vertical\<close> row: \<open>div.content\<close> and in it \<open>h3\<close>; the two detail
  blocks, searched from the row itself; \<open>div.image\<close>.\<close>

record plan_row =
  row_content :: "h3_elem option option"
  row_top_details :: "string option"
  row_bottom_details :: "string option"
  row_image :: "image_container option"

text \<open>The community page. \<open>p_overview\<close> nests \<open>div.community-detail-overview\<close>,
  \<open>article\<close> and \<open>h1\<close>; a slide is represented by its \<open>span[data-lazy]\<close>.\<close>

record community_page =
  p_overview :: "string option option option"
  p_text :: string
  p_location :: "location_elem option"
  p_meta_desc :: "string option option"
  p_slides :: "img_attrs option list"
  p_columns :: "column list"
  p_multicols :: "multicol list"
  p_qmi_section :: "qmi list option"
  p_plans :: "plan_row list"

text \<open>A home site's detail page: the article with the \<open>href\<close> of its map link (the first
  \<open>a.plain\<close> whose \<open>href\<close> contains \<open>maps.google.com\<close>) and its paragraphs; the slides,
  each with the \<open>data-lazy\<close> attribute of its \<open>span.hidden-image\<close> and its
  \<open>img.orbit-image\<close>.\<close>

record content_section =
  cs_map_link :: "string option"
  cs_paragraphs :: "string list"

record site_slide =
  sl_hidden_img :: "string option option"
  sl_orbit_img :: "img_attrs option"

record site_page =
  sp_content_section :: "content_section option"
  sp_slides :: "site_slide list"

text \<open>A home plan's detail page: the feature sections, the labelled columns, and
  \<open>div.tabs-content\<close> with its first \<open>div.tabs-panel\<close> and that panel's \<open>img\<close>.\<close>

record plan_page =
  pp_feature_sections :: "feature_section list"
  pp_columns :: "column list"
  pp_tabs_content :: "img_attrs option option option"

text \<open>What the browser returns for a URL answers all three sets of queries.\<close>

record page =
  as_community :: community_page
  as_site :: site_page
  as_plan :: plan_page

section \<open>The world: files, browser and clock\<close>

text \<open>
  The state that \<open>fetch_page\<close> changes is the set of existing files and the sequence of
  external actions performed. What the outside answers is read from an environment, at the
  time given by the number of actions so far: the page (or the transport error) for a
  \<open>driver.get\<close>, the draw of \<open>random.choice\<close> and the clock. Starting the browser, writing and
  removing a file are taken to succeed.
\<close>

datatype event =
    SetupDriver
  | DriverGet string
  | DriverQuit
  | Sleep nat
  | MakeDirs string
  | WriteFile string
  | RemoveFile string

record world =
  files :: "string set"
  trace :: "event list"

record env =
  web :: "nat \<Rightarrow> string \<Rightarrow> exn + page"
  rand :: "nat \<Rightarrow> nat"
  now :: "nat \<Rightarrow> string"

definition log_event :: "event \<Rightarrow> world \<Rightarrow> world" where
  "log_event e w = w\<lparr>trace := trace w @ [e]\<rparr>"

definition driver_get :: "env \<Rightarrow> string \<Rightarrow> world \<Rightarrow> (exn + page) \<times> world" where
  "driver_get ev u w = (web ev (length (trace w)) u, log_event (DriverGet u) w)"

definition write_file :: "string \<Rightarrow> world \<Rightarrow> world" where
  "write_file path w = log_event (WriteFile path) (w\<lparr>files := insert path (files w)\<rparr>)"

definition remove_file :: "string \<Rightarrow> world \<Rightarrow> world" where
  "remove_file path w = log_event (RemoveFile path) (w\<lparr>files := files w - {path}\<rparr>)"

text \<open>\<open>if os.path.exists(f): os.remove(f)\<close>\<close>

definition remove_if_exists :: "string \<Rightarrow> world \<Rightarrow> world" where
  "remove_if_exists path w = (if path \<in> files w then remove_file path w else w)"

text \<open>
  A block of statements working on a state \<open>'s\<close> either completes (\<open>None\<close>) or raises
  (\<open>Some e\<close>); what it changed before raising stays changed. \<open>then_do\<close> is sequencing,
  \<open>try_except\<close> is \<open>try: body except Exception: handler\<close>.
\<close>

type_synonym 's block = "'s \<Rightarrow> exn option \<times> 's"

definition then_do :: "'s block \<Rightarrow> 's block \<Rightarrow> 's block" where
  "then_do f g s = (case f s of (Some e, s') \<Rightarrow> (Some e, s') | (None, s') \<Rightarrow> g s')"

definition try_except :: "'s block \<Rightarrow> 's block \<Rightarrow> 's block" where
  "try_except body handler s =
     (case body s of (Some e, s') \<Rightarrow> handler s' | (None, s') \<Rightarrow> (None, s'))"

text \<open>A statement that cannot raise.\<close>

definition pure_step :: "('s \<Rightarrow> 's) \<Rightarrow> 's block" where
  "pure_step f s = (None, f s)"


section \<open>Helpers of the page assembly\<close>

definition bind_exn :: "exn + 'a \<Rightarrow> ('a \<Rightarrow> exn + 'b) \<Rightarrow> exn + 'b" where
  "bind_exn m f = (case m of Inl e \<Rightarrow> Inl e | Inr v \<Rightarrow> f v)"

definition site_origin :: string where
  "site_origin = ''https://www.meritagehomes.com''"

text \<open>
  The normalization written at every image of a card and of a gallery:
  \<^verbatim>\<open>if src and not src.startswith('http'): src = 'https://www.meritagehomes.com' + src\<close>,
  after which \<open>src\<close> is recorded whatever it is.
\<close>

definition normalize_src :: "string option \<Rightarrow> string option" where
  "normalize_src src =
     (case src of
        None \<Rightarrow> None
      | Some u \<Rightarrow> if u \<noteq> [] \<and> \<not> py_startswith u ''http'' then Some (site_origin @ u) else Some u)"

text \<open>\<open>img.get('src') or img.get('data-csrc')\<close>\<close>

definition img_src :: "img_attrs \<Rightarrow> string option" where
  "img_src img = py_or (a_src img) (a_data_csrc img)"

text \<open>The patterns used inline by \<open>fetch_page\<close>:
  \<^verbatim>\<open>Starting at\s+(\$[\d,]+)\<close>, \<^verbatim>\<open>Approx\.\s+Sq\.\s+Ft\.\s+([\d,]+)\s*-\s*([\d,]+)\<close>,
  \<^verbatim>\<open>\s+\d{5}$\<close>, \<^verbatim>\<open>Bed\s+(\d+)\<close>, \<^verbatim>\<open>Bath\s+(\d+)\<close>,
  \<^verbatim>\<open>Approx\.\s+([\d,]+)\s+sq\.\s+ft\.\<close>, \<^verbatim>\<open>daddr=([-\d.]+),([-\d.]+)\<close> and
  \<^verbatim>\<open><img[^>]*src="([^"]*)"\<close>.\<close>

definition starting_at_re :: regex where
  "starting_at_re = Seq (Lit ''Starting at'') (Seq (Rep CSpace 1 None) (Grp price_re))"

definition sqft_range_re :: regex where
  "sqft_range_re =
     Seq (Lit ''Approx.'') (Seq (Rep CSpace 1 None) (Seq (Lit ''Sq.'') (Seq (Rep CSpace 1 None)
    (Seq (Lit ''Ft.'') (Seq (Rep CSpace 1 None) (Seq (Grp (Rep digit_or_comma 1 None))
    (Seq (Rep CSpace 0 None) (Seq (Lit ''-'') (Seq (Rep CSpace 0 None)
         (Grp (Rep digit_or_comma 1 None)))))))))))"

definition zip_re :: regex where
  "zip_re = Seq (Rep CSpace 1 None) (Seq (Rep CDigit 5 (Some 5)) Eos)"

definition bed_re :: regex where
  "bed_re = Seq (Lit ''Bed'') (Seq (Rep CSpace 1 None) (Grp (Rep CDigit 1 None)))"

definition bath_re :: regex where
  "bath_re = Seq (Lit ''Bath'') (Seq (Rep CSpace 1 None) (Grp (Rep CDigit 1 None)))"

definition approx_sqft_re :: regex where
  "approx_sqft_re =
     Seq (Lit ''Approx.'') (Seq (Rep CSpace 1 None) (Seq (Grp (Rep digit_or_comma 1 None))
    (Seq (Rep CSpace 1 None) (Seq (Lit ''sq.'') (Seq (Rep CSpace 1 None) (Lit ''ft.''))))))"

definition coord_char :: cclass where
  "coord_char = CUnion (CChar CHR ''-'') (CUnion CDigit (CChar CHR ''.''))"

definition coords_re :: regex where
  "coords_re = Seq (Lit ''daddr='') (Seq (Grp (Rep coord_char 1 None))
                 (Seq (Lit '','') (Grp (Rep coord_char 1 None))))"

definition img_src_re :: regex where
  "img_src_re =
     Seq (Lit ''<img'') (Seq (Rep (CNot (CChar CHR ''>'')) 0 None)
    (Seq (Lit (''src='' @ [CHR 0x22])) (Seq (Grp (Rep (CNot (CChar (CHR 0x22))) 0 None))
         (Lit [CHR 0x22]))))"

text \<open>\<open>re.sub(r, '', s)\<close>: every match, found from left to right, is deleted. (Deleting an
  empty match changes nothing, so a position with an empty match keeps its character.)\<close>

function re_sub_del :: "regex \<Rightarrow> string \<Rightarrow> string" where
  "re_sub_del r s =
     (case rmatch r s [] of
        (rest, g) # _ \<Rightarrow>
          if length rest < length s then re_sub_del r rest
          else (case s of [] \<Rightarrow> [] | c # cs \<Rightarrow> c # re_sub_del r cs)
      | [] \<Rightarrow> (case s of [] \<Rightarrow> [] | c # cs \<Rightarrow> c # re_sub_del r cs))"
  by pat_completeness auto
termination
  by (relation "measure (\<lambda>(r, s). length s)") auto

text \<open>
  \<^verbatim>\<open>f"{re.search(r, d.text).group(1)}<suffix>" if d and re.search(r, d.text) else None\<close>
  where \<open>d\<close> is a detail block that may be missing.
\<close>

definition suffixed_group :: "regex \<Rightarrow> string \<Rightarrow> string option \<Rightarrow> exn + string option" where
  "suffixed_group r suffix d =
     (case d of
        None \<Rightarrow> Inr None
      | Some t \<Rightarrow>
          (case re_search r t of
             None \<Rightarrow> Inr None
           | Some m \<Rightarrow> map_sum id (\<lambda>g. Some (g @ suffix)) (group m 1)))"

text \<open>
  \<^verbatim>\<open>f"https://www.meritagehomes.com{h3.find('a')['href']}" if h3 and h3.find('a') else None\<close>:
  subscripting a link that has no \<open>href\<close> raises KeyError.
\<close>

definition link_url :: "h3_elem option \<Rightarrow> exn + string option" where
  "link_url h3 =
     (case h3 of
        None \<Rightarrow> Inr None
      | Some h \<Rightarrow>
          (case h3_a h of
             None \<Rightarrow> Inr None
           | Some None \<Rightarrow> Inl KeyError
           | Some (Some href) \<Rightarrow> Inr (Some (site_origin @ href))))"

text \<open>The suffix of a formatted area: a space, \<open>ft\<close> and the superscript two (code point
  178).\<close>

definition sqft_suffix :: string where
  "sqft_suffix = '' ft'' @ [CHR 0xB2]"

text \<open>
  The three scans of the community page's columns for a label: the first column whose
  heading is the label ends the scan, and sets the field when the heading has a sibling
  \<open>span\<close>.
\<close>

fun find_labelled :: "string \<Rightarrow> column list \<Rightarrow> string option" where
  "find_labelled label [] = None"
| "find_labelled label (None # cols) = find_labelled label cols"
| "find_labelled label (Some (h3, span) # cols) =
     (if py_strip h3 = label then map_option py_strip span else find_labelled label cols)"

text \<open>The scan for \<open>Half Bathrooms\<close> on a plan page: here \<open>break\<close> is under \<open>if span:\<close>, so
  a matching heading without a sibling \<open>span\<close> does not end the scan.\<close>

fun find_labelled_span :: "string \<Rightarrow> column list \<Rightarrow> string option" where
  "find_labelled_span label [] = None"
| "find_labelled_span label (None # cols) = find_labelled_span label cols"
| "find_labelled_span label (Some (h3, None) # cols) = find_labelled_span label cols"
| "find_labelled_span label (Some (h3, Some span) # cols) =
     (if py_strip h3 = label then Some (py_strip span) else find_labelled_span label cols)"

text \<open>
  \<open>int(s)\<close> on a string: surrounding white space is dropped, a sign may lead, and the rest
  is decimal digits, where single underscores may separate digits. Anything else raises
  ValueError.
\<close>

fun valid_digits :: "bool \<Rightarrow> string \<Rightarrow> bool" where
  "valid_digits after_digit [] = after_digit"
| "valid_digits after_digit (c # cs) =
     (if cmem CDigit c then valid_digits True cs
      else if c = CHR ''_'' \<and> after_digit then valid_digits False cs
      else False)"

fun digits_value :: "nat \<Rightarrow> string \<Rightarrow> nat" where
  "digits_value acc [] = acc"
| "digits_value acc (c # cs) =
     (if c = CHR ''_'' then digits_value acc cs
      else digits_value (10 * acc + (of_char c - 48)) cs)"

definition py_int :: "string \<Rightarrow> exn + int" where
  "py_int s =
     (let t = py_strip s;
          negative = (case t of c # _ \<Rightarrow> c = CHR ''-'' | [] \<Rightarrow> False);
          signed = (case t of c # _ \<Rightarrow> c = CHR ''-'' \<or> c = CHR ''+'' | [] \<Rightarrow> False);
          body = (if signed then tl t else t)
      in if valid_digits False body
         then Inr (if negative then - int (digits_value 0 body) else int (digits_value 0 body))
         else Inl ValueError)"


section \<open>Home sites\<close>

text \<open>The dictionary literal \<open>homesite = {...}\<close> (lines 236 to 255); \<open>index\<close> is the
  counter of \<open>enumerate\<close>.\<close>

definition build_homesite :: "int \<Rightarrow> mid_block \<Rightarrow> exn + homesite" where
  "build_homesite index mid =
     (let raw_address = map_option py_strip (mid_p mid);
          address = (if truthy raw_address then map_option normalize_spaces raw_address else None)
      in bind_exn (suffixed_group bed_re ''bd'' (mid_bottom_details mid)) (\<lambda>beds.
         bind_exn (suffixed_group bath_re ''ba'' (mid_bottom_details mid)) (\<lambda>baths.
         bind_exn (suffixed_group approx_sqft_re sqft_suffix (mid_bottom_details mid)) (\<lambda>sqft.
         bind_exn (link_url (mid_h3 mid)) (\<lambda>url.
         Inr \<lparr>hs_address = address,
              hs_name = map_option (re_sub_del zip_re) address,
              hs_plan = map_option (\<lambda>h. py_strip (h3_text h)) (mid_h3 mid),
              hs_id = py_str (index + 1),
              hs_price = map_option py_strip (mid_top_details mid),
              hs_beds = beds,
              hs_baths = baths,
              hs_sqft = sqft,
              hs_status = ''Available'',
              hs_image_url = None,
              hs_url = url,
              hs_latitude = None,
              hs_longitude = None,
              hs_overview = None,
              hs_images = []\<rparr>)))))"

text \<open>Lines 257 to 264: the card's image.\<close>

definition homesite_card_image :: "img_attrs option option \<Rightarrow> homesite \<Rightarrow> homesite" where
  "homesite_card_image img_container hs =
     (case img_container of
        Some (Some img) \<Rightarrow> hs\<lparr>hs_image_url := normalize_src (img_src img)\<rparr>
      | _ \<Rightarrow> hs)"

text \<open>Lines 284 to 291: the coordinates from the map link.\<close>

definition site_coordinates :: "string option \<Rightarrow> homesite block" where
  "site_coordinates map_link hs =
     (case map_link of
        None \<Rightarrow> (None, hs)
      | Some href \<Rightarrow>
          (case re_search coords_re href of
             None \<Rightarrow> (None, hs)
           | Some coords_match \<Rightarrow>
               (case group coords_match 1 of
                  Inl e \<Rightarrow> (Some e, hs)
                | Inr lat \<Rightarrow>
                    (case group coords_match 2 of
                       Inl e \<Rightarrow> (Some e, hs\<lparr>hs_latitude := Some lat\<rparr>)
                     | Inr long \<Rightarrow>
                         (None, hs\<lparr>hs_latitude := Some lat, hs_longitude := Some long\<rparr>)))))"

text \<open>Lines 294 to 300: the first paragraph that is not a plan number, a completion date or
  an address line.\<close>

fun first_overview :: "string list \<Rightarrow> string option" where
  "first_overview [] = None"
| "first_overview (p # ps) =
     (if \<not> py_startswith (py_strip p) ''Plan #'' \<and> \<not> py_contains ''Estimated Completion'' p
         \<and> \<not> py_contains ''Home Address'' p
      then Some (py_strip p) else first_overview ps)"

definition site_overview :: "string list \<Rightarrow> homesite \<Rightarrow> homesite" where
  "site_overview paragraphs hs =
     (case first_overview paragraphs of None \<Rightarrow> hs | Some t \<Rightarrow> hs\<lparr>hs_overview := Some t\<rparr>)"

definition loading_gif :: string where
  "loading_gif = ''meritageLoadingCommunityHero.gif''"

definition site_fallback_image :: "img_attrs option \<Rightarrow> string list \<Rightarrow> string list" where
  "site_fallback_image img images =
     (case img of
        None \<Rightarrow> images
      | Some i \<Rightarrow>
          (case img_src i of
             None \<Rightarrow> images
           | Some src \<Rightarrow>
               if src \<noteq> [] \<and> \<not> py_startswith src ''http'' \<and> \<not> py_endswith src loading_gif
               then images @ [site_origin @ src] else images))"

text \<open>Lines 303 to 318: the gallery. A slide with a lazily loaded image records its
  normalized source; otherwise the plain image is recorded only inside the test that it is
  relative and not the loading placeholder.\<close>

fun site_images :: "site_slide list \<Rightarrow> string list \<Rightarrow> string list" where
  "site_images [] images = images"
| "site_images (slide # slides) images =
     (case sl_hidden_img slide of
        Some (Some lazy) \<Rightarrow>
          (if lazy \<noteq> []
           then site_images slides
                  (images @ [if \<not> py_startswith lazy ''http'' then site_origin @ lazy else lazy])
           else site_images slides (site_fallback_image (sl_orbit_img slide) images))
      | _ \<Rightarrow> site_images slides (site_fallback_image (sl_orbit_img slide) images))"


definition homesite_html_file :: "string \<Rightarrow> string \<Rightarrow> string" where
  "homesite_html_file output_dir u =
     output_dir @ ''/html/meritage_homesite_'' @ last_segment u @ ''.html''"

text \<open>The body of the \<open>try\<close> of lines 268 to 325, on the home site being filled in and the
  world.\<close>

definition homesite_try_body :: "env \<Rightarrow> string \<Rightarrow> string \<Rightarrow> (homesite \<times> world) block" where
  "homesite_try_body ev output_dir u = (\<lambda>(hs, w).
     (case driver_get ev u w of
        (Inl e, w1) \<Rightarrow> (Some e, (hs, w1))
      | (Inr pg, w1) \<Rightarrow>
          (let w2 = write_file (homesite_html_file output_dir u) (log_event (Sleep 3) w1);
               site_soup = as_site pg
           in case (case sp_content_section site_soup of
                      None \<Rightarrow> (None, hs)
                    | Some cs \<Rightarrow>
                        (case site_coordinates (cs_map_link cs) hs of
                           (Some e, hs') \<Rightarrow> (Some e, hs')
                         | (None, hs') \<Rightarrow> (None, site_overview (cs_paragraphs cs) hs'))) of
                (Some e, hs') \<Rightarrow> (Some e, (hs', w2))
              | (None, hs') \<Rightarrow>
                  (None, (hs'\<lparr>hs_images := site_images (sp_slides site_soup) (hs_images hs')\<rparr>,
                          remove_if_exists (homesite_html_file output_dir u) w2)))))"

text \<open>The handler of lines 327 to 332.\<close>

definition homesite_except :: "string \<Rightarrow> string \<Rightarrow> (homesite \<times> world) block" where
  "homesite_except output_dir u =
     pure_step (\<lambda>(hs, w). (hs, remove_if_exists (homesite_html_file output_dir u) w))"

text \<open>Lines 267 to 332: \<open>if homesite["url"]:\<close> and the \<open>try\<close> statement.\<close>

definition enrich_homesite :: "env \<Rightarrow> string \<Rightarrow> (homesite \<times> world) block" where
  "enrich_homesite ev output_dir = (\<lambda>(hs, w).
     (case hs_url hs of
        None \<Rightarrow> (None, (hs, w))
      | Some u \<Rightarrow>
          if u = [] then (None, (hs, w))
          else try_except (homesite_try_body ev output_dir u) (homesite_except output_dir u)
                 (hs, w)))"

text \<open>The loop of lines 231 to 335 over the cards of the quick-move-in section.\<close>

fun homesites_loop :: "env \<Rightarrow> string \<Rightarrow> int \<Rightarrow> qmi list \<Rightarrow> (community \<times> world) block" where
  "homesites_loop ev output_dir index [] st = (None, st)"
| "homesites_loop ev output_dir index (q # qs) (data, w) =
     (case qmi_content q of
        Some (Some mid) \<Rightarrow>
          (case build_homesite index mid of
             Inl e \<Rightarrow> (Some e, (data, w))
           | Inr hs0 \<Rightarrow>
               (case enrich_homesite ev output_dir (homesite_card_image (qmi_image q) hs0, w) of
                  (Some e, (hs, w')) \<Rightarrow> (Some e, (data, w'))
                | (None, (hs, w')) \<Rightarrow>
                    homesites_loop ev output_dir (index + 1) qs
                      (data\<lparr>homesites := homesites data @ [hs]\<rparr>, w')))
      | _ \<Rightarrow> homesites_loop ev output_dir (index + 1) qs (data, w))"

section \<open>Home plans\<close>

text \<open>The dictionary literal \<open>homeplan = {...}\<close> (lines 340 to 354).\<close>

definition build_homeplan :: "plan_row \<Rightarrow> exn + homeplan" where
  "build_homeplan row =
     (let h3 = (case row_content row of Some (Some h) \<Rightarrow> Some h | _ \<Rightarrow> None)
      in bind_exn (link_url h3) (\<lambda>url.
         bind_exn (suffixed_group bed_re ''bd'' (row_bottom_details row)) (\<lambda>beds.
         bind_exn (suffixed_group bath_re ''ba'' (row_bottom_details row)) (\<lambda>baths.
         bind_exn (suffixed_group approx_sqft_re sqft_suffix (row_bottom_details row)) (\<lambda>sqft.
         Inr \<lparr>hp_name = map_option (\<lambda>h. py_strip (h3_text h)) h3,
              hp_url = url,
              hp_details =
                \<lparr>pd_price = map_option py_strip (row_top_details row),
                 pd_beds = beds,
                 pd_baths = baths,
                 pd_half_baths = None,
                 pd_sqft = sqft,
                 pd_status = ''Actively selling'',
                 pd_image_url = None\<rparr>,
              hp_floorplan_images = [],
              hp_includedFeatures = []\<rparr>)))))"

definition set_plan_image :: "string option \<Rightarrow> homeplan \<Rightarrow> homeplan" where
  "set_plan_image src hp = hp\<lparr>hp_details := (hp_details hp)\<lparr>pd_image_url := src\<rparr>\<rparr>"

text \<open>Lines 357 to 376: the card's image. \<open>re.search\<close> on a script whose \<open>.string\<close> is
  \<open>None\<close> raises TypeError.\<close>

definition plan_card_image :: "image_container option \<Rightarrow> homeplan block" where
  "plan_card_image img_container hp =
     (case img_container of
        None \<Rightarrow> (None, hp)
      | Some ic \<Rightarrow>
          (case ic_lazy_script ic of
             Some script \<Rightarrow>
               (case script of
                  None \<Rightarrow> (Some TypeError, hp)
                | Some str \<Rightarrow>
                    (case re_search img_src_re str of
                       None \<Rightarrow> (None, hp)
                     | Some img_match \<Rightarrow>
                         (case group img_match 1 of
                            Inl e \<Rightarrow> (Some e, hp)
                          | Inr src \<Rightarrow> (None, set_plan_image (normalize_src (Some src)) hp))))
           | None \<Rightarrow>
               (case ic_img ic of
                  None \<Rightarrow> (None, hp)
                | Some img \<Rightarrow> (None, set_plan_image (normalize_src (img_src img)) hp))))"

text \<open>Lines 451 to 458.\<close>

definition floor_name :: "int \<Rightarrow> string" where
  "floor_name i =
     (if i = 1 then ''1st Floor Floorplan''
      else if i = 2 then ''2nd Floor Floorplan''
      else if i = 3 then ''3rd Floor Floorplan''
      else py_str i @ ''th Floor Floorplan'')"

text \<open>The loop \<open>for i in range(1, stories + 1)\<close> (lines 450 to 471). With a
  \<open>div.tabs-content\<close> that has no \<open>div.tabs-panel\<close>, \<open>panels\<close> is \<open>None\<close> and
  \<open>panels.find('img')\<close> raises AttributeError.\<close>

fun floors_loop :: "int list \<Rightarrow> img_attrs option option option \<Rightarrow> homeplan block" where
  "floors_loop [] tabs_content hp = (None, hp)"
| "floors_loop (i # is) tabs_content hp =
     (case tabs_content of
        None \<Rightarrow> floors_loop is tabs_content hp
      | Some None \<Rightarrow> (Some AttributeError, hp)
      | Some (Some None) \<Rightarrow> floors_loop is tabs_content hp
      | Some (Some (Some img)) \<Rightarrow>
          (case img_src img of
             None \<Rightarrow> floors_loop is tabs_content hp
           | Some src \<Rightarrow>
               if src = [] then floors_loop is tabs_content hp
               else floors_loop is tabs_content
                      (hp\<lparr>hp_floorplan_images := hp_floorplan_images hp @
                            [\<lparr>fi_name = floor_name i, fi_image_url = src\<rparr>]\<rparr>)))"

text \<open>The scan for \<open>Stories\<close> (lines 442 to 474): \<open>except ValueError: continue\<close> goes on to
  the next column, any other exception leaves the loop, and \<open>break\<close> ends the scan.\<close>

fun stories_loop :: "column list \<Rightarrow> img_attrs option option option \<Rightarrow> homeplan block" where
  "stories_loop [] tabs_content hp = (None, hp)"
| "stories_loop (None # cols) tabs_content hp = stories_loop cols tabs_content hp"
| "stories_loop (Some (h3, None) # cols) tabs_content hp = stories_loop cols tabs_content hp"
| "stories_loop (Some (h3, Some span) # cols) tabs_content hp =
     (if py_strip h3 = ''Stories'' then
        (case py_int (py_strip span) of
           Inl e \<Rightarrow> if e = ValueError then stories_loop cols tabs_content hp else (Some e, hp)
         | Inr stories \<Rightarrow>
             (case floors_loop [1 .. stories] tabs_content hp of
                (Some e, hp') \<Rightarrow>
                  if e = ValueError then stories_loop cols tabs_content hp' else (Some e, hp')
              | (None, hp') \<Rightarrow> (None, hp')))
      else stories_loop cols tabs_content hp)"

definition plan_html_file :: "string \<Rightarrow> string \<Rightarrow> string" where
  "plan_html_file output_dir u = output_dir @ ''/html/meritage_'' @ last_segment u @ ''.html''"

definition set_half_baths :: "string option \<Rightarrow> homeplan \<Rightarrow> homeplan" where
  "set_half_baths v hp =
     (case v of None \<Rightarrow> hp
      | Some t \<Rightarrow> hp\<lparr>hp_details := (hp_details hp)\<lparr>pd_half_baths := Some t\<rparr>\<rparr>)"

text \<open>The body of the \<open>try\<close> of lines 380 to 479.\<close>

definition homeplan_try_body :: "env \<Rightarrow> string \<Rightarrow> string \<Rightarrow> (homeplan \<times> world) block" where
  "homeplan_try_body ev output_dir u = (\<lambda>(hp, w).
     (case driver_get ev u w of
        (Inl e, w1) \<Rightarrow> (Some e, (hp, w1))
      | (Inr pg, w1) \<Rightarrow>
          (let w2 = write_file (plan_html_file output_dir u) (log_event (Sleep 3) w1);
               plan_soup = as_plan pg;
               hp1 = hp\<lparr>hp_includedFeatures := included_features (pp_feature_sections plan_soup)\<rparr>;
               hp2 = set_half_baths (find_labelled_span ''Half Bathrooms'' (pp_columns plan_soup)) hp1
           in case stories_loop (pp_columns plan_soup) (pp_tabs_content plan_soup) hp2 of
                (Some e, hp3) \<Rightarrow> (Some e, (hp3, w2))
              | (None, hp3) \<Rightarrow>
                  (None, (hp3, remove_if_exists (plan_html_file output_dir u) w2)))))"

text \<open>The handler of lines 481 to 486.\<close>

definition homeplan_except :: "string \<Rightarrow> string \<Rightarrow> (homeplan \<times> world) block" where
  "homeplan_except output_dir u =
     pure_step (\<lambda>(hp, w). (hp, remove_if_exists (plan_html_file output_dir u) w))"

text \<open>Lines 379 to 486: \<open>if homeplan["url"]:\<close> and the \<open>try\<close> statement.\<close>

definition enrich_homeplan :: "env \<Rightarrow> string \<Rightarrow> (homeplan \<times> world) block" where
  "enrich_homeplan ev output_dir = (\<lambda>(hp, w).
     (case hp_url hp of
        None \<Rightarrow> (None, (hp, w))
      | Some u \<Rightarrow>
          if u = [] then (None, (hp, w))
          else try_except (homeplan_try_body ev output_dir u) (homeplan_except output_dir u)
                 (hp, w)))"

text \<open>The loop of lines 338 to 489 over the floor-plan rows.\<close>

fun homeplans_loop :: "env \<Rightarrow> string \<Rightarrow> plan_row list \<Rightarrow> (community \<times> world) block" where
  "homeplans_loop ev output_dir [] st = (None, st)"
| "homeplans_loop ev output_dir (row # rows) (data, w) =
     (case build_homeplan row of
        Inl e \<Rightarrow> (Some e, (data, w))
      | Inr hp0 \<Rightarrow>
          (case plan_card_image (row_image row) hp0 of
             (Some e, hp1) \<Rightarrow> (Some e, (data, w))
           | (None, hp1) \<Rightarrow>
               (case enrich_homeplan ev output_dir (hp1, w) of
                  (Some e, (hp, w')) \<Rightarrow> (Some e, (data, w'))
                | (None, (hp, w')) \<Rightarrow>
                    homeplans_loop ev output_dir rows
                      (data\<lparr>homeplans := homeplans data @ [hp]\<rparr>, w'))))"


section \<open>The community page\<close>

text \<open>The dictionary literal \<open>data = {...}\<close> (lines 92 to 124).\<close>

definition initial_data :: "string \<Rightarrow> string \<Rightarrow> community" where
  "initial_data stamp url =
     \<lparr>timestamp = stamp,
      c_name = None,
      c_status = None,
      c_url = url,
      price_from = None,
      c_address = None,
      phone = None,
      c_description = None,
      c_images = [],
      c_location = \<lparr>latitude = None, longitude = None,
                    loc_address = \<lparr>city = None, state = None, market = None\<rparr>\<rparr>,
      c_details = \<lparr>price_range = None, sqft_range = None, bed_range = None, bath_range = None,
                   stories_range = None, community_count = 1\<rparr>,
      amenities = [],
      homeplans = [],
      homesites = [],
      nearbyplaces = [],
      collections = []\<rparr>"

text \<open>Lines 127 to 132. \<open>overview_section.find('article').find('h1')\<close> raises
  AttributeError when the overview has no \<open>article\<close>.\<close>

definition name_step :: "community_page \<Rightarrow> community block" where
  "name_step soup data =
     (case p_overview soup of
        None \<Rightarrow> (None, data)
      | Some None \<Rightarrow> (Some AttributeError, data)
      | Some (Some None) \<Rightarrow> (None, data)
      | Some (Some (Some h1)) \<Rightarrow> (None, data\<lparr>c_name := Some (py_strip h1)\<rparr>))"

text \<open>Lines 135 to 140.\<close>

definition price_step :: "community_page \<Rightarrow> community block" where
  "price_step soup data =
     (case re_search starting_at_re (p_text soup) of
        None \<Rightarrow> (None, data)
      | Some price_match \<Rightarrow>
          (case group price_match 1 of
             Inl e \<Rightarrow> (Some e, data)
           | Inr g \<Rightarrow>
               (None, data\<lparr>price_from := Some (''From '' @ g),
                            c_details := (c_details data)\<lparr>price_range := Some (''From '' @ g)\<rparr>\<rparr>)))"

text \<open>Lines 143 to 148.\<close>

definition address_step :: "community_page \<Rightarrow> community \<Rightarrow> community" where
  "address_step soup data =
     (case p_location soup of
        Some location_elem \<Rightarrow>
          (case le_has_dividers location_elem of
             Some (Some p) \<Rightarrow> data\<lparr>c_address := Some (py_strip p)\<rparr>
           | _ \<Rightarrow> data)
      | None \<Rightarrow> data)"

text \<open>Lines 151 to 154: \<open>meta_desc.get('content', '').strip()\<close>.\<close>

definition description_step :: "community_page \<Rightarrow> community \<Rightarrow> community" where
  "description_step soup data =
     (case p_meta_desc soup of
        None \<Rightarrow> data
      | Some content \<Rightarrow>
          data\<lparr>c_description := Some (py_strip (case content of None \<Rightarrow> [] | Some c \<Rightarrow> c))\<rparr>)"

text \<open>Lines 157 to 167: the first slide's image. The statement that appends is inside
  \<open>if not src.startswith('http')\<close>.\<close>

definition first_image_step :: "community_page \<Rightarrow> community \<Rightarrow> community" where
  "first_image_step soup data =
     (case p_slides soup of
        [] \<Rightarrow> data
      | first_image # _ \<Rightarrow>
          (case first_image of
             None \<Rightarrow> data
           | Some span \<Rightarrow>
               (case img_src span of
                  None \<Rightarrow> data
                | Some src \<Rightarrow>
                    if src \<noteq> [] then
                      (if \<not> py_startswith src ''http''
                       then data\<lparr>c_images := c_images data @ [site_origin @ src]\<rparr>
                       else data)
                    else data)))"

text \<open>Lines 170 to 174.\<close>

definition coordinates_step :: "community_page \<Rightarrow> community \<Rightarrow> community" where
  "coordinates_step soup data =
     (case p_location soup of
        None \<Rightarrow> data
      | Some location_elem \<Rightarrow>
          data\<lparr>c_location := (c_location data)
                 \<lparr>latitude := le_data_lat location_elem,
                  longitude := le_data_long location_elem\<rparr>\<rparr>)"

text \<open>Lines 177 to 182.\<close>

definition sqft_range_step :: "community_page \<Rightarrow> community block" where
  "sqft_range_step soup data =
     (case re_search sqft_range_re (p_text soup) of
        None \<Rightarrow> (None, data)
      | Some sqft_match \<Rightarrow>
          (case group sqft_match 1 of
             Inl e \<Rightarrow> (Some e, data)
           | Inr lo \<Rightarrow>
               (case group sqft_match 2 of
                  Inl e \<Rightarrow> (Some e, data)
                | Inr hi \<Rightarrow>
                    (None, data\<lparr>c_details := (c_details data)
                                   \<lparr>sqft_range := Some (lo @ '' - '' @ hi)\<rparr>\<rparr>))))"

text \<open>Lines 185 to 212: the bed, bath and stories ranges.\<close>

definition ranges_step :: "community_page \<Rightarrow> community \<Rightarrow> community" where
  "ranges_step soup data =
     (let columns = p_columns soup;
          d1 = (case find_labelled ''Bedrooms'' columns of
                  None \<Rightarrow> c_details data
                | Some v \<Rightarrow> (c_details data)\<lparr>bed_range := Some v\<rparr>);
          d2 = (case find_labelled ''Full Bathrooms'' columns of
                  None \<Rightarrow> d1
                | Some v \<Rightarrow> d1\<lparr>bath_range := Some v\<rparr>);
          d3 = (case find_labelled ''Stories'' columns of
                  None \<Rightarrow> d2
                | Some v \<Rightarrow> d2\<lparr>stories_range := Some v\<rparr>)
      in data\<lparr>c_details := d3\<rparr>)"

text \<open>Lines 215 to 226: the nearby places, group by group.\<close>

definition nearby_of_group :: "multicol \<Rightarrow> nearby_place list" where
  "nearby_of_group g =
     map (\<lambda>link. \<lparr>np_name = py_strip link, np_category = map_option py_strip (mc_h5 g),
                   np_distance = None, np_rating = None, np_reviews = None\<rparr>) (mc_plain g)"

definition nearby_step :: "community_page \<Rightarrow> community \<Rightarrow> community" where
  "nearby_step soup data =
     data\<lparr>nearbyplaces := nearbyplaces data @ concat (map nearby_of_group (p_multicols soup))\<rparr>"

text \<open>A block on the community alone, run on the community and the world.\<close>

definition on_data :: "community block \<Rightarrow> (community \<times> world) block" where
  "on_data f = (\<lambda>(data, w). case f data of (e, data') \<Rightarrow> (e, (data', w)))"

text \<open>Lines 229 to 231: \<open>if qmi_section:\<close> and the loop, counting from 0.\<close>

definition homesites_step :: "env \<Rightarrow> string \<Rightarrow> community_page \<Rightarrow> (community \<times> world) block" where
  "homesites_step ev output_dir soup st =
     (case p_qmi_section soup of
        None \<Rightarrow> (None, st)
      | Some cards \<Rightarrow> homesites_loop ev output_dir 0 cards st)"

text \<open>Lines 126 to 226 in order: the steps that read the community page only.\<close>

definition scalar_steps :: "community_page \<Rightarrow> community block" where
  "scalar_steps soup =
     then_do (name_step soup)
    (then_do (price_step soup)
    (then_do (pure_step (address_step soup))
    (then_do (pure_step (description_step soup))
    (then_do (pure_step (first_image_step soup))
    (then_do (pure_step (coordinates_step soup))
    (then_do (sqft_range_step soup)
    (then_do (pure_step (ranges_step soup))
             (pure_step (nearby_step soup)))))))))"

text \<open>Lines 126 to 489 in order.\<close>

definition assemble :: "env \<Rightarrow> string \<Rightarrow> community_page \<Rightarrow> (community \<times> world) block" where
  "assemble ev output_dir soup =
     then_do (on_data (scalar_steps soup))
    (then_do (homesites_step ev output_dir soup)
             (homeplans_loop ev output_dir (p_plans soup)))"

section \<open>The image fallback\<close>

text \<open>Lines 496 to 505: the images of the plans, then of each site its card image and its
  gallery.\<close>

fun plan_images :: "homeplan list \<Rightarrow> string list" where
  "plan_images [] = []"
| "plan_images (plan # plans) =
     (case pd_image_url (hp_details plan) of
        None \<Rightarrow> plan_images plans
      | Some u \<Rightarrow> if u \<noteq> [] then u # plan_images plans else plan_images plans)"

fun site_all_images :: "homesite list \<Rightarrow> string list" where
  "site_all_images [] = []"
| "site_all_images (site # sites) =
     (case hs_image_url site of
        None \<Rightarrow> hs_images site @ site_all_images sites
      | Some u \<Rightarrow>
          if u \<noteq> [] then u # hs_images site @ site_all_images sites
          else hs_images site @ site_all_images sites)"

definition available_images :: "community \<Rightarrow> string list" where
  "available_images data = plan_images (homeplans data) @ site_all_images (homesites data)"

text \<open>Lines 492 to 510. \<open>random.choice(seq)\<close> returns \<open>seq[k]\<close> for a \<open>k\<close> below
  \<open>len(seq)\<close> chosen by the generator; \<open>r\<close> is the generator's draw, reduced to that
  range.\<close>

definition image_fallback :: "nat \<Rightarrow> community \<Rightarrow> community" where
  "image_fallback r data =
     (if c_images data = [] then
        (let available = available_images data
         in if available \<noteq> [] then data\<lparr>c_images := [available ! (r mod length available)]\<rparr>
            else data)
      else data)"

section \<open>fetch_page and the batch loop\<close>

definition json_file :: "string \<Rightarrow> string \<Rightarrow> string" where
  "json_file output_dir url = output_dir @ ''/json/meritage_'' @ last_segment url @ ''.json''"

definition html_file :: "string \<Rightarrow> string \<Rightarrow> string" where
  "html_file output_dir url = output_dir @ ''/html/meritage_'' @ last_segment url @ ''.html''"

text \<open>Lines 79 to 517: what runs inside the outer \<open>try\<close> once the browser is started.
  \<open>Inl\<close> is an exception reaching the outer handler.\<close>

definition fetch_page_body :: "env \<Rightarrow> string \<Rightarrow> string \<Rightarrow> world \<Rightarrow> (exn + community) \<times> world" where
  "fetch_page_body ev url output_dir w0 =
     (case driver_get ev url w0 of
        (Inl e, w1) \<Rightarrow> (Inl e, w1)
      | (Inr pg, w1) \<Rightarrow>
          (let w2 = write_file (html_file output_dir url)
                      (log_event (MakeDirs (output_dir @ ''/json''))
                        (log_event (MakeDirs (output_dir @ ''/html''))
                          (log_event (Sleep 5) w1)));
               data = initial_data (now ev (length (trace w2))) url
           in case assemble ev output_dir (as_community pg) (data, w2) of
                (Some e, (data', w3)) \<Rightarrow> (Inl e, w3)
              | (None, (data', w3)) \<Rightarrow>
                  (Inr (image_fallback (rand ev (length (trace w3))) data'),
                   write_file (json_file output_dir url) w3)))"

text \<open>\<open>fetch_page\<close>: the test for an existing output comes first; the outer handler turns
  every exception into \<open>None\<close>; \<open>finally\<close> quits the browser when one was started.\<close>

definition fetch_page :: "env \<Rightarrow> string \<Rightarrow> string \<Rightarrow> world \<Rightarrow> community option \<times> world" where
  "fetch_page ev url output_dir w =
     (if json_file output_dir url \<in> files w then (None, w)
      else (case fetch_page_body ev url output_dir (log_event SetupDriver w) of
              (Inl e, w') \<Rightarrow> (None, log_event DriverQuit w')
            | (Inr data, w') \<Rightarrow> (Some data, log_event DriverQuit w')))"

text \<open>The loop of \<open>main\<close> in batch mode (lines 575 to 582).\<close>

fun process_urls :: "env \<Rightarrow> string list \<Rightarrow> string \<Rightarrow> world \<Rightarrow> world" where
  "process_urls ev [] output_dir w = w"
| "process_urls ev (url # urls) output_dir w =
     process_urls ev urls output_dir (log_event (Sleep 2) (snd (fetch_page ev url output_dir w)))"


section \<open>Link discovery\<close>

text \<open>
  The loop of \<open>get_city_links\<close> (lines 59 to 66 of the link script) and, with the same body,
  of \<open>get_community_links\<close> (lines 102 to 109): each element is represented by its
  \<open>href\<close> attribute, a relative one is made absolute, and a link is appended when it is not
  in the list yet.
\<close>

fun collect_links :: "string option list \<Rightarrow> string list \<Rightarrow> string list" where
  "collect_links [] links = links"
| "collect_links (element # elements) links =
     (case element of
        None \<Rightarrow> collect_links elements links
      | Some href \<Rightarrow>
          if href = [] then collect_links elements links
          else
            (let href' = (if \<not> py_startswith href ''http'' then site_origin @ href else href)
             in if href' \<in> set links then collect_links elements links
                else collect_links elements (links @ [href'])))"

section \<open>Notions used in the statements\<close>

text \<open>The number of features that received bucket \<open>j\<close>.\<close>

definition bucket_size :: "feature list \<Rightarrow> int \<Rightarrow> nat" where
  "bucket_size feats j = length (filter (\<lambda>ft. section_index ft = j) feats)"

text \<open>The invariant of the bucketing loop: the current bucket is between 0 and 3, and the
  buckets assigned so far are ordered and do not exceed it.\<close>

definition bucket_inv :: "bucket_state \<Rightarrow> bool" where
  "bucket_inv st = (case st of (feats, cur, cnt) \<Rightarrow>
      0 \<le> cur \<and> cur \<le> 3 \<and> sorted (map section_index feats) \<and>
      list_all (\<lambda>ft. 0 \<le> section_index ft \<and> section_index ft \<le> cur) feats)"

text \<open>The least number of capturing groups closed on any way through a pattern.\<close>

fun min_groups :: "regex \<Rightarrow> nat" where
  "min_groups (Lit l) = 0"
| "min_groups (Rep c mn mx) = 0"
| "min_groups (Seq a b) = min_groups a + min_groups b"
| "min_groups (Alt a b) = min (min_groups a) (min_groups b)"
| "min_groups (Opt a) = 0"
| "min_groups (Grp a) = Suc (min_groups a)"
| "min_groups Eos = 0"

text \<open>
  What a pattern means, apart from any matcher: \<open>denotes r w rest\<close> says that the word \<open>w\<close>
  is a word of the pattern \<open>r\<close> when \<open>rest\<close> is what follows it in the text (only \<open>$\<close> looks
  at what follows). A pattern occurs in a text when some substring of the text, at some
  position, is a word of it. \<open>rests r s\<close> collects what can remain of \<open>s\<close> after a word of \<open>r\<close>
  at its start.
\<close>

fun denotes :: "regex \<Rightarrow> string \<Rightarrow> string \<Rightarrow> bool" where
  "denotes (Lit l) w rest = (w = l)"
| "denotes (Rep c mn mx) w rest =
     (list_all (cmem c) w \<and> mn \<le> length w \<and>
      (case mx of None \<Rightarrow> True | Some m \<Rightarrow> length w \<le> m))"
| "denotes (Seq a b) w rest =
     list_ex (\<lambda>k. denotes a (take k w) (drop k w @ rest) \<and> denotes b (drop k w) rest)
       [0 ..< Suc (length w)]"
| "denotes (Alt a b) w rest = (denotes a w rest \<or> denotes b w rest)"
| "denotes (Opt a) w rest = (w = [] \<or> denotes a w rest)"
| "denotes (Grp a) w rest = denotes a w rest"
| "denotes Eos w rest = (w = [] \<and> (rest = [] \<or> rest = [CHR 0x0A]))"

text \<open>\<open>occurs r t\<close>: the substring of \<open>t\<close> from position \<open>i\<close> to position \<open>j\<close> is a word of \<open>r\<close>,
  for some \<open>i \<le> j\<close>.\<close>

definition occurs :: "regex \<Rightarrow> string \<Rightarrow> bool" where
  "occurs r t =
     list_ex (\<lambda>i. list_ex (\<lambda>j. denotes r (take (j - i) (drop i t)) (drop j t))
                     [i ..< Suc (length t)])
       [0 ..< Suc (length t)]"

definition rests :: "regex \<Rightarrow> string \<Rightarrow> string set" where
  "rests r s = {drop k s | k. k \<le> length s \<and> denotes r (take k s) (drop k s)}"

text \<open>A block keeps an observation \<open>obs\<close> of the state when no run of it changes \<open>obs\<close>,
  whether it completes or raises.\<close>

definition keeps :: "('s \<Rightarrow> 'a) \<Rightarrow> 's block \<Rightarrow> bool" where
  "keeps obs f = (\<forall>s. obs (snd (f s)) = obs s)"

text \<open>The fields that the community dictionary fixes at creation.\<close>

definition fixed_part :: "community \<Rightarrow> int \<times> string list \<times> string list" where
  "fixed_part data = (community_count (c_details data), amenities data, collections data)"

text \<open>A home site and a home plan with the fields that only enrichment assigns put back to
  their initial values.\<close>

definition without_site_enrichment :: "homesite \<Rightarrow> homesite" where
  "without_site_enrichment hs =
     hs\<lparr>hs_latitude := None, hs_longitude := None, hs_overview := None, hs_images := []\<rparr>"

definition without_plan_enrichment :: "homeplan \<Rightarrow> homeplan" where
  "without_plan_enrichment hp =
     hp\<lparr>hp_details := (hp_details hp)\<lparr>pd_half_baths := None\<rparr>,
        hp_floorplan_images := [], hp_includedFeatures := []\<rparr>"

text \<open>The images that the children of a community carry: the non-empty primary image of
  each plan, the non-empty primary image of each site, and every gallery image of a site.\<close>

definition image_union :: "community \<Rightarrow> string set" where
  "image_union data =
     {u. \<exists>plan \<in> set (homeplans data). pd_image_url (hp_details plan) = Some u \<and> u \<noteq> []}
     \<union> {u. \<exists>site \<in> set (homesites data). hs_image_url site = Some u \<and> u \<noteq> []}
     \<union> (\<Union>site \<in> set (homesites data). set (hs_images site))"

text \<open>The 1-based positions, counted over all cards of the quick-move-in section from
  \<open>index\<close> on, of the cards that have a \<open>div.content\<close> with a \<open>div.mid\<close>.\<close>

fun emitting_positions :: "int \<Rightarrow> qmi list \<Rightarrow> int list" where
  "emitting_positions index [] = []"
| "emitting_positions index (q # qs) =
     (case qmi_content q of
        Some (Some mid) \<Rightarrow> (index + 1) # emitting_positions (index + 1) qs
      | _ \<Rightarrow> emitting_positions (index + 1) qs)"


text \<open>What the steps before and after the home-site loop leave alone: the fixed fields and the
  two lists of children.\<close>

definition frame ::
  "community \<Rightarrow> (int \<times> string list \<times> string list) \<times> homesite list \<times> homeplan list" where
  "frame data = (fixed_part data, homesites data, homeplans data)"

text \<open>Whether a card has a \<open>div.content\<close> with a \<open>div.mid\<close>, and the cards of a page.\<close>

definition has_mid :: "qmi \<Rightarrow> bool" where
  "has_mid q = (case qmi_content q of Some (Some mid) \<Rightarrow> True | _ \<Rightarrow> False)"

definition cards_of :: "community_page \<Rightarrow> qmi list" where
  "cards_of soup = (case p_qmi_section soup of None \<Rightarrow> [] | Some cards \<Rightarrow> cards)"

section \<open>Example inputs\<close>

text \<open>
  Concrete pages, an environment and a world on which the statements below are evaluated.
  The environment serves one community page and two plan pages, one of which has a
  \<open>div.tabs-content\<close> without \<open>div.tabs-panel\<close>, and fails every other fetch with a
  transport error.
\<close>

definition ex_site_url :: string where
  "ex_site_url = ''https://www.meritagehomes.com/site/12-main-st''"

definition ex_aspen_url :: string where
  "ex_aspen_url = ''https://www.meritagehomes.com/plan/aspen''"

definition ex_birch_url :: string where
  "ex_birch_url = ''https://www.meritagehomes.com/plan/birch''"

definition ex_world :: world where
  "ex_world = \<lparr>files = {''out/html/meritage_homesite_12-main-st.html''}, trace = []\<rparr>"

definition ex_community_page :: community_page where
  "ex_community_page =
     \<lparr>p_overview = None, p_text = [], p_location = None, p_meta_desc = None, p_slides = [],
      p_columns = [], p_multicols = [], p_qmi_section = None, p_plans = []\<rparr>"

definition ex_site_page :: site_page where
  "ex_site_page = \<lparr>sp_content_section = None, sp_slides = []\<rparr>"

definition ex_plan_page :: plan_page where
  "ex_plan_page =
     \<lparr>pp_feature_sections = [Some [''Granite'', ''Tile'']],
      pp_columns = [Some (''Half Bathrooms'', Some ''1''), Some (''Stories'', Some ''2'')],
      pp_tabs_content = None\<rparr>"

definition ex_plan_page_no_panel :: plan_page where
  "ex_plan_page_no_panel = ex_plan_page\<lparr>pp_tabs_content := Some None\<rparr>"

definition ex_url :: string where
  "ex_url = ''https://www.meritagehomes.com/state/tx/austin/oak-hill''"

definition ex_mid :: mid_block where
  "ex_mid =
     \<lparr>mid_p = Some ''12 Main St'',
      mid_h3 = Some \<lparr>h3_text = ''Aspen'', h3_a = Some (Some ''/site/12-main-st'')\<rparr>,
      mid_top_details = None, mid_bottom_details = None\<rparr>"

definition ex_qmi :: qmi where
  "ex_qmi = \<lparr>qmi_content = Some (Some ex_mid), qmi_image = None\<rparr>"

definition ex_qmi_bare :: qmi where
  "ex_qmi_bare = \<lparr>qmi_content = None, qmi_image = None\<rparr>"

definition ex_row :: "string \<Rightarrow> plan_row" where
  "ex_row href =
     \<lparr>row_content = Some (Some \<lparr>h3_text = ''Aspen'', h3_a = Some (Some href)\<rparr>),
      row_top_details = None, row_bottom_details = None, row_image = None\<rparr>"

definition ex_oak_hill :: community_page where
  "ex_oak_hill =
     ex_community_page\<lparr>p_qmi_section := Some [ex_qmi_bare, ex_qmi],
                        p_plans := [ex_row ''/plan/aspen'']\<rparr>"

definition ex_web :: "nat \<Rightarrow> string \<Rightarrow> exn + page" where
  "ex_web t u =
     (if u = ex_aspen_url
      then Inr \<lparr>as_community = ex_community_page, as_site = ex_site_page,
                as_plan = ex_plan_page_no_panel\<rparr>
      else if u = ex_birch_url
      then Inr \<lparr>as_community = ex_community_page, as_site = ex_site_page,
                as_plan = ex_plan_page\<rparr>
      else if u = ex_url
      then Inr \<lparr>as_community = ex_oak_hill, as_site = ex_site_page, as_plan = ex_plan_page\<rparr>
      else Inl WebDriverException)"

definition ex_rand :: "nat \<Rightarrow> nat" where
  "ex_rand t = 0"

definition ex_now :: "nat \<Rightarrow> string" where
  "ex_now t = ''2024-01-01T00:00:00''"

definition ex_env :: env where
  "ex_env = \<lparr>web = ex_web, rand = ex_rand, now = ex_now\<rparr>"

definition ex_homesite :: homesite where
  "ex_homesite =
     \<lparr>hs_address = Some ''12 Main St'', hs_name = Some ''12 Main St'', hs_plan = Some ''Aspen'',
      hs_id = ''1'', hs_price = None, hs_beds = None, hs_baths = None, hs_sqft = None,
      hs_status = ''Available'', hs_image_url = None, hs_url = Some ex_site_url,
      hs_latitude = None, hs_longitude = None, hs_overview = None, hs_images = []\<rparr>"

definition ex_homeplan :: "string \<Rightarrow> homeplan" where
  "ex_homeplan u =
     \<lparr>hp_name = Some ''Aspen'', hp_url = Some u,
      hp_details = \<lparr>pd_price = None, pd_beds = None, pd_baths = None, pd_half_baths = None,
                    pd_sqft = None, pd_status = ''Actively selling'', pd_image_url = None\<rparr>,
      hp_floorplan_images = [], hp_includedFeatures = []\<rparr>"

definition ex_data :: community where
  "ex_data = initial_data ''2024-01-01T00:00:00'' ex_url"

text \<open>A world in which the output of \<open>ex_url\<close> is already written.\<close>

definition ex_materialized :: world where
  "ex_materialized = \<lparr>files = {''out/json/meritage_oak-hill.json''}, trace = []\<rparr>"

text \<open>A community without top-level image whose one plan has the image \<open>A\<close> and whose one
  site has the image \<open>B\<close>.\<close>

definition ex_two_images :: community where
  "ex_two_images =
     ex_data\<lparr>homeplans := [(ex_homeplan ex_aspen_url)
                               \<lparr>hp_details := (hp_details (ex_homeplan ex_aspen_url))
                                                 \<lparr>pd_image_url := Some ''A''\<rparr>\<rparr>],
             homesites := [ex_homesite\<lparr>hs_image_url := Some ''B''\<rparr>]\<rparr>"

text \<open>Community pages whose first slide carries an absolute and a relative image source, and
  an image tag and a heading link with absolute addresses.\<close>

definition ex_absolute_img :: img_attrs where
  "ex_absolute_img = \<lparr>a_src = Some ''https://cdn.example.com/hero.jpg'', a_data_csrc = None\<rparr>"

definition ex_relative_img :: img_attrs where
  "ex_relative_img = \<lparr>a_src = Some ''/media/hero.jpg'', a_data_csrc = None\<rparr>"

definition ex_absolute_slide_page :: community_page where
  "ex_absolute_slide_page = ex_community_page\<lparr>p_slides := [Some ex_absolute_img]\<rparr>"

definition ex_relative_slide_page :: community_page where
  "ex_relative_slide_page = ex_community_page\<lparr>p_slides := [Some ex_relative_img]\<rparr>"

definition ex_absolute_h3 :: h3_elem where
  "ex_absolute_h3 =
     \<lparr>h3_text = ''Aspen'', h3_a = Some (Some ''https://www.meritagehomes.com/plan/aspen'')\<rparr>"

text \<open>The record that \<open>fetch_page\<close> returns for \<open>ex_url\<close> in \<open>ex_world\<close>.\<close>

definition ex_result :: community where
  "ex_result =
     \<lparr>timestamp = ''2024-01-01T00:00:00'', c_name = None, c_status = None,
      c_url = ex_url, price_from = None, c_address = None, phone = None,
      c_description = None, c_images = [],
      c_location = \<lparr>latitude = None, longitude = None,
                    loc_address = \<lparr>city = None, state = None, market = None\<rparr>\<rparr>,
      c_details = \<lparr>price_range = None, sqft_range = None, bed_range = None,
                   bath_range = None, stories_range = None, community_count = 1\<rparr>,
      amenities = [],
      homeplans =
        [\<lparr>hp_name = Some ''Aspen'', hp_url = Some ex_aspen_url,
          hp_details = \<lparr>pd_price = None, pd_beds = None, pd_baths = None,
                        pd_half_baths = Some ''1'', pd_sqft = None,
                        pd_status = ''Actively selling'', pd_image_url = None\<rparr>,
          hp_floorplan_images = [],
          hp_includedFeatures =
            [\<lparr>description = ''Granite'', section_index = 0\<rparr>,
             \<lparr>description = ''Tile'', section_index = 1\<rparr>]\<rparr>],
      homesites = [ex_homesite\<lparr>hs_id := ''2''\<rparr>],
      nearbyplaces = [], collections = []\<rparr>"

section \<open>Properties of the feature bucketing\<close>

lemma bucket_items_append:
  "bucket_items fps (xs @ ys) st = bucket_items fps ys (bucket_items fps xs st)"
proof (induction xs arbitrary: st)
  case Nil show ?case by simp
next
  case (Cons x xs)
  obtain feats cur cnt where st: "st = (feats, cur, cnt)" by (cases st) auto
  show ?case unfolding st by (simp add: Let_def Cons.IH)
qed

lemma bucket_sections_items:
  "bucket_sections fps secs st = bucket_items fps (all_items secs) st"
proof (induction fps secs st rule: bucket_sections.induct)
  case (1 fps st) show ?case by (simp add: all_items_def)
next
  case (2 fps secs st) then show ?case by (simp add: all_items_def)
next
  case (3 fps lis secs st)
  then show ?case by (simp add: all_items_def bucket_items_append)
qed

lemma count_total_features_length:
  "count_total_features secs a = a + int (length (all_items secs))"
  by (induction secs a rule: count_total_features.induct) (simp_all add: all_items_def)

lemma bucket_items_inv:
  "bucket_inv st \<Longrightarrow> bucket_inv (bucket_items fps lis st)"
proof (induction fps lis st rule: bucket_items.induct)
  case (1 fps st) then show ?case by simp
next
  case (2 fps li lis feats cur cnt)
  show ?case
  proof (cases "py_strip li = []")
    case True
    with 2 show ?thesis by simp
  next
    case False
    let ?cur' = "if cnt + 1 \<ge> (cur + 1) * fps then min (cur + 1) 3 else cur"
    let ?feats' = "feats @ [\<lparr>description = py_strip li, section_index = cur\<rparr>]"
    have "bucket_inv (?feats', ?cur', cnt + 1)"
      using "2.prems" by (auto simp: bucket_inv_def sorted_append list_all_iff)
    then have "bucket_inv (bucket_items fps lis (?feats', ?cur', cnt + 1))"
      using "2.IH"(1)[OF refl False refl refl refl] by simp
    then show ?thesis using False by (simp add: Let_def)
  qed
qed


lemma Suc_div_step:
  assumes "0 < (f::nat)"
  shows "Suc c div f = (if (c div f + 1) * f \<le> Suc c then c div f + 1 else c div f)"
proof -
  have lo: "c div f * f \<le> c" by simp
  have hi: "c < (c div f + 1) * f" using assms
    by (metis Suc_eq_plus1 dividend_less_div_times mult.commute add.commute mult_Suc)
  show ?thesis
  proof (cases "(c div f + 1) * f \<le> Suc c")
    case True
    then have "c div f + 1 \<le> Suc c div f" using assms
      by (simp add: less_eq_div_iff_mult_less_eq)
    moreover have "Suc c div f \<le> c div f + 1"
      by (metis Suc_eq_plus1 div_add_self2 div_le_mono assms le_add2 less_numeral_extra(3) plus_1_eq_Suc Suc_le_mono add.commute le_SucI nat_le_linear not_less_eq_eq)
    ultimately have "Suc c div f = c div f + 1" by linarith
    then show ?thesis using True by (simp only: if_True)
  next
    case False
    then have "Suc c < (c div f + 1) * f" by simp
    then have "Suc c div f < c div f + 1" using assms
      by (simp add: div_less_iff_less_mult)
    moreover have "c div f \<le> Suc c div f" by (simp add: div_le_mono)
    ultimately have "Suc c div f = c div f" by linarith
    then show ?thesis using False by (simp only: if_False)
  qed
qed


lemma closed_form:
  assumes "\<forall>t \<in> set lis. py_strip t \<noteq> []" "0 < f"
  shows "map section_index (fst (bucket_items (int f) lis (feats, int (min (c div f) 3), int c)))
       = map section_index feats @ map (\<lambda>k. int (min (k div f) 3)) [c ..< c + length lis]"
  using assms
proof (induction lis arbitrary: feats c)
  case Nil show ?case by simp
next
  case (Cons li lis)
  have ne: "py_strip li \<noteq> []" using Cons.prems by simp
  have cond: "((int (min (c div f) 3) + 1) * int f \<le> int c + 1)
               = ((min (c div f) 3 + 1) * f \<le> Suc c)"
  proof -
    have a: "(int (min (c div f) 3) + 1) * int f = int ((min (c div f) 3 + 1) * f)"
      by (simp add: algebra_simps)
    have b: "int c + 1 = int (Suc c)" by simp
    show ?thesis unfolding a b by (rule of_nat_le_iff)
  qed
  have step: "(if (int (min (c div f) 3) + 1) * int f \<le> int c + 1
               then min (int (min (c div f) 3) + 1) 3 else int (min (c div f) 3))
              = int (min (Suc c div f) 3)"
  proof (cases "c div f < 3")
    case True
    then have m: "min (c div f) 3 = c div f" by simp
    note cond' = cond[unfolded m]
    show ?thesis
    proof (cases "(c div f + 1) * f \<le> Suc c")
      case T: True
      then have "Suc c div f = c div f + 1" using Suc_div_step[OF \<open>0 < f\<close>, of c] by simp
      then show ?thesis unfolding m using T cond' True by simp
    next
      case F: False
      then have "Suc c div f = c div f" using Suc_div_step[OF \<open>0 < f\<close>, of c] by simp
      then show ?thesis unfolding m using F cond' True by simp
    qed
  next
    case False
    then have "3 \<le> c div f" by simp
    moreover have "c div f \<le> Suc c div f" by (simp add: div_le_mono)
    ultimately have "min (c div f) 3 = 3" "min (Suc c div f) 3 = 3" by linarith+
    then show ?thesis by simp
  qed
  have eq: "bucket_items (int f) (li # lis) (feats, int (min (c div f) 3), int c)
      = bucket_items (int f) lis
          (feats @ [\<lparr>description = py_strip li, section_index = int (min (c div f) 3)\<rparr>],
           int (min (Suc c div f) 3), int (Suc c))"
  proof -
    have c1: "int c + 1 = int (Suc c)" by simp
    show ?thesis
      apply (subst bucket_items.simps)
      apply (simp only: Let_def ne if_True step[unfolded c1] c1 simp_thms)
      done
  qed
  have ih: "map section_index (fst (bucket_items (int f) lis
          (feats @ [\<lparr>description = py_strip li, section_index = int (min (c div f) 3)\<rparr>],
           int (min (Suc c div f) 3), int (Suc c))))
      = map section_index (feats @ [\<lparr>description = py_strip li, section_index = int (min (c div f) 3)\<rparr>])
        @ map (\<lambda>k. int (min (k div f) 3)) [Suc c ..< Suc c + length lis]"
  proof -
    have p: "\<forall>t \<in> set lis. py_strip t \<noteq> []" using Cons.prems(1) by simp
    show ?thesis by (rule Cons.IH[OF p Cons.prems(2)])
  qed
  have up: "[c ..< c + length (li # lis)] = c # [Suc c ..< Suc c + length lis]"
  proof -
    have "c < c + length (li # lis)" by simp
    then have "[c ..< c + length (li # lis)] = c # [Suc c ..< c + length (li # lis)]"
      by (rule upt_conv_Cons)
    moreover have "c + length (li # lis) = Suc c + length lis" by simp
    ultimately show ?thesis by (simp only:)
  qed
  show ?case unfolding eq ih up by simp
qed


lemma closed_form_zero:
  assumes "\<forall>t \<in> set lis. py_strip t \<noteq> []"
  shows "map section_index (fst (bucket_items 0 lis (feats, int (min c 3), int c)))
       = map section_index feats @ map (\<lambda>k. int (min k 3)) [c ..< c + length lis]"
  using assms
proof (induction lis arbitrary: feats c)
  case Nil show ?case by simp
next
  case (Cons li lis)
  have ne: "py_strip li \<noteq> []" using Cons.prems by simp
  have p: "\<forall>t \<in> set lis. py_strip t \<noteq> []" using Cons.prems by simp
  have step: "min (int (min c 3) + 1) 3 = int (min (Suc c) 3)" by auto
  have c1: "int c + 1 = int (Suc c)" by simp
  have eq: "bucket_items 0 (li # lis) (feats, int (min c 3), int c)
      = bucket_items 0 lis
          (feats @ [\<lparr>description = py_strip li, section_index = int (min c 3)\<rparr>],
           int (min (Suc c) 3), int (Suc c))"
    apply (subst bucket_items.simps)
    apply (simp only: Let_def ne if_True mult_zero_right c1 of_nat_0_le_iff step[unfolded c1] simp_thms)
    done
  have up: "[c ..< c + length (li # lis)] = c # [Suc c ..< Suc c + length lis]"
  proof -
    have "c < c + length (li # lis)" by simp
    then have "[c ..< c + length (li # lis)] = c # [Suc c ..< c + length (li # lis)]"
      by (rule upt_conv_Cons)
    moreover have "c + length (li # lis) = Suc c + length lis" by simp
    ultimately show ?thesis by (simp only:)
  qed
  show ?case unfolding eq Cons.IH[OF p] up by simp
qed

lemma bucket_size_map:
  "bucket_size feats j = length (filter (\<lambda>i. i = j) (map section_index feats))"
  by (simp add: bucket_size_def filter_map comp_def)

lemma count_low_bucket:
  assumes "0 < f" "j < 3" "(j + 1) * f \<le> n"
  shows "length (filter (\<lambda>i. i = int j) (map (\<lambda>k. int (min (k div f) 3)) [0 ..< n])) = f"
proof -
  have "length (filter (\<lambda>i. i = int j) (map (\<lambda>k. int (min (k div f) 3)) [0 ..< n]))
      = card {k. k < n \<and> min (k div f) 3 = j}"
  proof -
    have "{k. min (k div f) 3 = j} \<inter> set [0 ..< n] = {k. k < n \<and> min (k div f) 3 = j}"
      by auto
    then show ?thesis
      by (simp add: filter_map comp_def distinct_length_filter)
  qed
  also have "{k. k < n \<and> min (k div f) 3 = j} = {j * f ..< (j + 1) * f}"
  proof -
    have iff: "(k div f = j) = (j * f \<le> k \<and> k < (j + 1) * f)" for k
    proof -
      have "(k div f = j) = (j \<le> k div f \<and> k div f < j + 1)" by auto
      also have "\<dots> = (j * f \<le> k \<and> k < (j + 1) * f)"
        by (simp only: less_eq_div_iff_mult_less_eq[OF assms(1)] div_less_iff_less_mult[OF assms(1)])
      finally show ?thesis .
    qed
    have m: "(min (k div f) 3 = j) = (k div f = j)" for k using assms(2) by auto
    show ?thesis
    proof (rule set_eqI)
      fix k
      show "(k \<in> {k. k < n \<and> min (k div f) 3 = j}) = (k \<in> {j * f ..< (j + 1) * f})"
        using assms(3) by (auto simp: m iff simp del: mult_Suc)
    qed
  qed
  finally show ?thesis by simp
qed

lemma count_last_bucket:
  assumes "0 < f" "3 * f \<le> n"
  shows "length (filter (\<lambda>i. i = 3) (map (\<lambda>k. int (min (k div f) 3)) [0 ..< n])) = n - 3 * f"
proof -
  have "length (filter (\<lambda>i. i = 3) (map (\<lambda>k. int (min (k div f) 3)) [0 ..< n]))
      = card {k. k < n \<and> min (k div f) 3 = 3}"
  proof -
    have "{k. min (k div f) 3 = 3} \<inter> set [0 ..< n] = {k. k < n \<and> min (k div f) 3 = 3}"
      by auto
    moreover have "(int (min (k div f) 3) = 3) = (min (k div f) 3 = 3)" for k by linarith
    ultimately show ?thesis
      by (simp add: filter_map comp_def distinct_length_filter)
  qed
  also have "{k. k < n \<and> min (k div f) 3 = 3} = {3 * f ..< n}"
  proof (rule set_eqI)
    fix k
    have "(min (k div f) 3 = 3) = (3 \<le> k div f)" by auto
    also have "\<dots> = (3 * f \<le> k)" by (rule less_eq_div_iff_mult_less_eq[OF assms(1)])
    finally show "(k \<in> {k. k < n \<and> min (k div f) 3 = 3}) = (k \<in> {3 * f ..< n})" by auto
  qed
  finally show ?thesis by simp
qed

lemma included_features_items:
  "included_features secs =
     fst (bucket_items (features_per_section (int (length (all_items secs)))) (all_items secs) ([], 0, 0))"
  by (simp add: included_features_def Let_def bucket_sections_items count_total_features_length)

lemma included_features_big:
  assumes "\<forall>t \<in> set (all_items secs). py_strip t \<noteq> []" "4 \<le> length (all_items secs)"
  shows "map section_index (included_features secs)
       = map (\<lambda>k. int (min (k div (length (all_items secs) div 4)) 3)) [0 ..< length (all_items secs)]"
proof -
  let ?n = "length (all_items secs)"
  have f: "0 < ?n div 4" using assms(2) by simp
  have fps: "features_per_section (int ?n) = int (?n div 4)"
    using assms(2) by (simp add: features_per_section_def zdiv_int)
  show ?thesis
    using closed_form[OF assms(1) f, of "[]" 0] by (simp add: included_features_items fps)
qed

lemma included_features_small:
  assumes "\<forall>t \<in> set (all_items secs). py_strip t \<noteq> []" "length (all_items secs) < 4"
  shows "map section_index (included_features secs) = map int [0 ..< length (all_items secs)]"
proof -
  let ?n = "length (all_items secs)"
  have fps: "features_per_section (int ?n) = 0"
    using assms(2) by (simp add: features_per_section_def)
  have "map (\<lambda>k. int (min k 3)) [0 ..< ?n] = map int [0 ..< ?n]"
    using assms(2) by simp
  then show ?thesis
    using closed_form_zero[OF assms(1), of "[]" 0] by (simp add: included_features_items fps)
qed

lemma included_features_inv:
  "bucket_inv (bucket_items fps (all_items secs) ([], 0, 0))"
  by (rule bucket_items_inv) (simp add: bucket_inv_def)





text \<open>
  Claim C4, as stated, fails: with three features the code gives each its own bucket 0, 1, 2,
  so the first bucket receives one feature and not \<open>floor(3 / 4) = 0\<close>.
\<close>

theorem bucket_share_counterexample:
  "map section_index (included_features [Some [''Granite'', ''Tile'', ''Patio'']]) = [0, 1, 2] \<and>
   bucket_size (included_features [Some [''Granite'', ''Tile'', ''Patio'']]) 0 \<noteq> 3 div 4"
  by (simp add: included_features_def features_per_section_def bucket_size_def
        py_strip_def py_isspace_def)

text \<open>
  Claim C4, amended. On every plan page the buckets assigned lie between 0 and 3 and never
  decrease in the order of appearance. When no list item is blank and there are at least four,
  each of the buckets 0, 1 and 2 receives \<open>floor(total_features / 4)\<close> features and bucket 3
  the remaining ones; when no item is blank and there are fewer than four, the features
  receive the buckets 0, 1, 2 in turn.
\<close>

theorem bucket_partition:
  "list_all (\<lambda>ft. 0 \<le> section_index ft \<and> section_index ft \<le> 3) (included_features secs) \<and>
   sorted (map section_index (included_features secs)) \<and>
   (list_all (\<lambda>t. py_strip t \<noteq> []) (all_items secs) \<longrightarrow> 4 \<le> length (all_items secs) \<longrightarrow>
      bucket_size (included_features secs) 0 = length (all_items secs) div 4 \<and>
      bucket_size (included_features secs) 1 = length (all_items secs) div 4 \<and>
      bucket_size (included_features secs) 2 = length (all_items secs) div 4 \<and>
      bucket_size (included_features secs) 3
        = length (all_items secs) - 3 * (length (all_items secs) div 4)) \<and>
   (list_all (\<lambda>t. py_strip t \<noteq> []) (all_items secs) \<longrightarrow> length (all_items secs) < 4 \<longrightarrow>
      map section_index (included_features secs) = map int [0 ..< length (all_items secs)])"
proof -
  let ?n = "length (all_items secs)"
  let ?fs = "included_features secs"
  obtain feats cur cnt where st:
    "bucket_items (features_per_section (int ?n)) (all_items secs) ([], 0, 0) = (feats, cur, cnt)"
    by (cases "bucket_items (features_per_section (int ?n)) (all_items secs) ([], 0, 0)") auto
  have fs: "?fs = feats" by (simp add: included_features_items st)
  have inv: "bucket_inv (feats, cur, cnt)"
    using included_features_inv[of "features_per_section (int ?n)" secs] st by simp
  have range: "list_all (\<lambda>ft. 0 \<le> section_index ft \<and> section_index ft \<le> 3) ?fs"
    using inv unfolding fs by (auto simp: bucket_inv_def list_all_iff)
  have mono: "sorted (map section_index ?fs)"
    using inv unfolding fs by (simp add: bucket_inv_def)
  have big: "bucket_size ?fs 0 = ?n div 4 \<and> bucket_size ?fs 1 = ?n div 4 \<and>
             bucket_size ?fs 2 = ?n div 4 \<and> bucket_size ?fs 3 = ?n - 3 * (?n div 4)"
    if ne: "list_all (\<lambda>t. py_strip t \<noteq> []) (all_items secs)" and n4: "4 \<le> ?n"
  proof -
    have ne': "\<forall>t \<in> set (all_items secs). py_strip t \<noteq> []" using ne by (simp add: list_all_iff)
    note cf = included_features_big[OF ne' n4]
    have f: "0 < ?n div 4" using n4 by simp
    have le: "4 * (?n div 4) \<le> ?n" by simp
    have b0: "bucket_size ?fs 0 = ?n div 4"
      unfolding bucket_size_map cf using count_low_bucket[OF f, of 0 ?n] le by simp
    have b1: "bucket_size ?fs 1 = ?n div 4"
      unfolding bucket_size_map cf using count_low_bucket[OF f, of 1 ?n] le by simp
    have b2: "bucket_size ?fs 2 = ?n div 4"
      unfolding bucket_size_map cf using count_low_bucket[OF f, of 2 ?n] le by simp
    have b3: "bucket_size ?fs 3 = ?n - 3 * (?n div 4)"
      unfolding bucket_size_map cf using count_last_bucket[OF f, of ?n] le by simp
    show ?thesis using b0 b1 b2 b3 by simp
  qed
  have small: "map section_index ?fs = map int [0 ..< ?n]"
    if ne: "list_all (\<lambda>t. py_strip t \<noteq> []) (all_items secs)" and n4: "?n < 4"
    using included_features_small[OF _ n4] ne by (simp add: list_all_iff)
  show ?thesis using range mono big small by blast
qed

theorem bucket_partition_witness:
  "list_all (\<lambda>t. py_strip t \<noteq> []) (all_items [Some [''Granite'', ''Tile''], Some [''Patio'', ''Loft'', ''Deck'']]) \<and>
   4 \<le> length (all_items [Some [''Granite'', ''Tile''], Some [''Patio'', ''Loft'', ''Deck'']]) \<and>
   bucket_size (included_features [Some [''Granite'', ''Tile''], Some [''Patio'', ''Loft'', ''Deck'']]) 0 = 1 \<and>
   bucket_size (included_features [Some [''Granite'', ''Tile''], Some [''Patio'', ''Loft'', ''Deck'']]) 3 = 2 \<and>
   list_all (\<lambda>t. py_strip t \<noteq> []) (all_items [Some [''Granite'']]) \<and>
   length (all_items [Some [''Granite'']]) < 4 \<and>
   map section_index (included_features [Some [''Granite'']]) = [0]"
proof -
  have ne: "list_all (\<lambda>t. py_strip t \<noteq> []) (all_items [Some [''Granite'', ''Tile''], Some [''Patio'', ''Loft'', ''Deck'']])"
    by (simp add: all_items_def py_strip_def py_isspace_def)
  have len: "length (all_items [Some [''Granite'', ''Tile''], Some [''Patio'', ''Loft'', ''Deck'']]) = 5"
    by (simp add: all_items_def)
  have ne1: "list_all (\<lambda>t. py_strip t \<noteq> []) (all_items [Some [''Granite'']])"
    by (simp add: all_items_def py_strip_def py_isspace_def)
  have len1: "length (all_items [Some [''Granite'']]) = 1"
    by (simp add: all_items_def)
  show ?thesis
    using bucket_partition[of "[Some [''Granite'', ''Tile''], Some [''Patio'', ''Loft'', ''Deck'']]"]
      bucket_partition[of "[Some [''Granite'']]"] ne len ne1 len1
    by simp
qed

section \<open>Properties of the enrichment blocks\<close>

lemma remove_if_exists_gone: "path \<notin> files (remove_if_exists path w)"
  by (simp add: remove_if_exists_def remove_file_def log_event_def)

lemma homesite_try_body_done:
  assumes "homesite_try_body ev output_dir u (hs, w) = (None, (hs', w'))"
  shows "homesite_html_file output_dir u \<notin> files w'"
  using assms
  by (auto simp: homesite_try_body_def Let_def remove_if_exists_gone
           split: prod.splits sum.splits option.splits)

lemma homeplan_try_body_done:
  assumes "homeplan_try_body ev output_dir u (hp, w) = (None, (hp', w'))"
  shows "plan_html_file output_dir u \<notin> files w'"
  using assms
  by (auto simp: homeplan_try_body_def Let_def remove_if_exists_gone
           split: prod.splits sum.splits option.splits)

lemma enrich_homesite_cases:
  assumes "hs_url hs = Some u" "u \<noteq> []"
  shows "enrich_homesite ev output_dir (hs, w) =
           (case homesite_try_body ev output_dir u (hs, w) of
              (Some e, (hs', w')) \<Rightarrow> (None, (hs', remove_if_exists (homesite_html_file output_dir u) w'))
            | (None, s') \<Rightarrow> (None, s'))"
  using assms
  by (simp add: enrich_homesite_def try_except_def homesite_except_def pure_step_def
           split: prod.splits option.splits)

lemma enrich_homeplan_cases:
  assumes "hp_url hp = Some u" "u \<noteq> []"
  shows "enrich_homeplan ev output_dir (hp, w) =
           (case homeplan_try_body ev output_dir u (hp, w) of
              (Some e, (hp', w')) \<Rightarrow> (None, (hp', remove_if_exists (plan_html_file output_dir u) w'))
            | (None, s') \<Rightarrow> (None, s'))"
  using assms
  by (simp add: enrich_homeplan_def try_except_def homeplan_except_def pure_step_def
           split: prod.splits option.splits)

lemma site_snapshot_gone:
  assumes "hs_url hs = Some u" "u \<noteq> []"
  shows "homesite_html_file output_dir u \<notin> files (snd (snd (enrich_homesite ev output_dir (hs, w))))"
proof -
  obtain r hs' w' where body: "homesite_try_body ev output_dir u (hs, w) = (r, (hs', w'))"
    by (metis surj_pair)
  show ?thesis
  proof (cases r)
    case None
    then show ?thesis
      using homesite_try_body_done[of ev output_dir u hs w hs' w'] body
      by (simp add: enrich_homesite_cases[OF assms])
  next
    case (Some e)
    then show ?thesis using body
      by (simp add: enrich_homesite_cases[OF assms] remove_if_exists_gone)
  qed
qed

lemma plan_snapshot_gone:
  assumes "hp_url hp = Some u" "u \<noteq> []"
  shows "plan_html_file output_dir u \<notin> files (snd (snd (enrich_homeplan ev output_dir (hp, w))))"
proof -
  obtain r hp' w' where body: "homeplan_try_body ev output_dir u (hp, w) = (r, (hp', w'))"
    by (metis surj_pair)
  show ?thesis
  proof (cases r)
    case None
    then show ?thesis
      using homeplan_try_body_done[of ev output_dir u hp w hp' w'] body
      by (simp add: enrich_homeplan_cases[OF assms])
  next
    case (Some e)
    then show ?thesis using body
      by (simp add: enrich_homeplan_cases[OF assms] remove_if_exists_gone)
  qed
qed

lemma enrich_homesite_completes: "fst (enrich_homesite ev output_dir s) = None"
  by (cases s)
     (simp add: enrich_homesite_def try_except_def homesite_except_def pure_step_def
           split: prod.splits option.splits)

lemma enrich_homeplan_completes: "fst (enrich_homeplan ev output_dir s) = None"
  by (cases s)
     (simp add: enrich_homeplan_def try_except_def homeplan_except_def pure_step_def
           split: prod.splits option.splits)

lemma site_coordinates_core:
  "without_site_enrichment (snd (site_coordinates map_link hs)) = without_site_enrichment hs"
  by (simp add: site_coordinates_def without_site_enrichment_def
           split: option.splits sum.splits)

lemma site_overview_core:
  "without_site_enrichment (site_overview ps hs) = without_site_enrichment hs"
  by (simp add: site_overview_def without_site_enrichment_def split: option.splits)

lemma homesite_try_body_core:
  "without_site_enrichment (fst (snd (homesite_try_body ev output_dir u (hs, w))))
     = without_site_enrichment hs"
proof (cases "web ev (length (trace w)) u")
  case (Inl e)
  then show ?thesis by (simp add: homesite_try_body_def driver_get_def)
next
  case (Inr pg)
  show ?thesis
  proof (cases "sp_content_section (as_site pg)")
    case None
    then show ?thesis using Inr
      by (simp add: homesite_try_body_def driver_get_def Let_def without_site_enrichment_def)
  next
    case (Some cs)
    obtain r hs1 where c: "site_coordinates (cs_map_link cs) hs = (r, hs1)" by (metis surj_pair)
    have k1: "without_site_enrichment hs1 = without_site_enrichment hs"
      using site_coordinates_core[of "cs_map_link cs" hs] c by simp
    have k2: "without_site_enrichment (site_overview (cs_paragraphs cs) hs1) = without_site_enrichment hs"
      using site_overview_core k1 by simp
    have k3: "without_site_enrichment (h\<lparr>hs_images := imgs\<rparr>) = without_site_enrichment h" for h imgs
      by (simp add: without_site_enrichment_def)
    show ?thesis using Inr Some c k1 k2
      by (cases r) (simp_all add: homesite_try_body_def driver_get_def Let_def k3)
  qed
qed

lemma enrich_homesite_core:
  "without_site_enrichment (fst (snd (enrich_homesite ev output_dir (hs, w))))
     = without_site_enrichment hs"
proof (cases "hs_url hs")
  case None
  then show ?thesis by (simp add: enrich_homesite_def)
next
  case (Some u)
  show ?thesis
  proof (cases "u = []")
    case True
    then show ?thesis using Some by (simp add: enrich_homesite_def)
  next
    case False
    obtain r hs' w' where b: "homesite_try_body ev output_dir u (hs, w) = (r, (hs', w'))"
      by (metis surj_pair)
    have "without_site_enrichment hs' = without_site_enrichment hs"
      using homesite_try_body_core[of ev output_dir u hs w] b by simp
    then show ?thesis using b
      by (cases r) (simp_all add: enrich_homesite_cases[OF Some False])
  qed
qed

lemma enrich_homesite_fetch_fails:
  assumes "hs_url hs = Some u" "web ev (length (trace w)) u = Inl e"
  shows "fst (snd (enrich_homesite ev output_dir (hs, w))) = hs"
  using assms
  by (simp add: enrich_homesite_def try_except_def homesite_except_def pure_step_def
        homesite_try_body_def driver_get_def)

lemma floors_loop_core:
  "without_plan_enrichment (snd (floors_loop is tabs hp)) = without_plan_enrichment hp"
proof (induction "is" tabs hp rule: floors_loop.induct)
  case (1 tabs hp)
  show ?case by simp
next
  case (2 i "is" tabs hp)
  have k: "without_plan_enrichment (h\<lparr>hp_floorplan_images := x\<rparr>) = without_plan_enrichment h" for h x
    by (simp add: without_plan_enrichment_def)
  show ?case using 2 by (simp add: k split: option.splits)
qed

lemma stories_loop_core:
  "without_plan_enrichment (snd (stories_loop cols tabs hp)) = without_plan_enrichment hp"
proof (induction cols tabs hp rule: stories_loop.induct)
  case (4 h3 span cols tabs hp)
  show ?case
  proof (cases "py_strip h3 = ''Stories''")
    case False
    then show ?thesis using "4.IH"(3) by simp
  next
    case True
    show ?thesis
    proof (cases "py_int (py_strip span)")
      case (Inl e)
      then show ?thesis using True "4.IH"(1) by simp
    next
      case (Inr stories)
      obtain r hp' where f: "floors_loop [1 .. stories] tabs hp = (r, hp')" by (metis surj_pair)
      have k: "without_plan_enrichment hp' = without_plan_enrichment hp"
        using floors_loop_core[of "[1 .. stories]" tabs hp] f by simp
      show ?thesis
      proof (cases r)
        case None
        then show ?thesis using True Inr f k by simp
      next
        case (Some e)
        show ?thesis
        proof (cases "e = ValueError")
          case V: True
          show ?thesis
            using True Inr f k Some V "4.IH"(2)[OF True Inr f[symmetric] Some V] by simp
        next
          case V: False
          show ?thesis using True Inr f k Some V by simp
        qed
      qed
    qed
  qed
qed simp_all

lemma homeplan_try_body_core:
  "without_plan_enrichment (fst (snd (homeplan_try_body ev output_dir u (hp, w))))
     = without_plan_enrichment hp"
proof (cases "web ev (length (trace w)) u")
  case (Inl e)
  then show ?thesis by (simp add: homeplan_try_body_def driver_get_def)
next
  case (Inr pg)
  let ?hp2 = "set_half_baths (find_labelled_span ''Half Bathrooms'' (pp_columns (as_plan pg)))
                (hp\<lparr>hp_includedFeatures := included_features (pp_feature_sections (as_plan pg))\<rparr>)"
  have k: "without_plan_enrichment ?hp2 = without_plan_enrichment hp"
    by (simp add: set_half_baths_def without_plan_enrichment_def split: option.splits)
  obtain r hp3 where s: "stories_loop (pp_columns (as_plan pg)) (pp_tabs_content (as_plan pg)) ?hp2 = (r, hp3)"
    by (metis surj_pair)
  have "without_plan_enrichment hp3 = without_plan_enrichment hp"
    using stories_loop_core[of "pp_columns (as_plan pg)" "pp_tabs_content (as_plan pg)" ?hp2] s k by simp
  then show ?thesis using Inr s
    by (cases r) (simp_all add: homeplan_try_body_def driver_get_def Let_def)
qed

lemma enrich_homeplan_core:
  "without_plan_enrichment (fst (snd (enrich_homeplan ev output_dir (hp, w))))
     = without_plan_enrichment hp"
proof (cases "hp_url hp")
  case None
  then show ?thesis by (simp add: enrich_homeplan_def)
next
  case (Some u)
  show ?thesis
  proof (cases "u = []")
    case True
    then show ?thesis using Some by (simp add: enrich_homeplan_def)
  next
    case False
    obtain r hp' w' where b: "homeplan_try_body ev output_dir u (hp, w) = (r, (hp', w'))"
      by (metis surj_pair)
    have "without_plan_enrichment hp' = without_plan_enrichment hp"
      using homeplan_try_body_core[of ev output_dir u hp w] b by simp
    then show ?thesis using b
      by (cases r) (simp_all add: enrich_homeplan_cases[OF Some False])
  qed
qed

lemma enrich_homeplan_fetch_fails:
  assumes "hp_url hp = Some u" "web ev (length (trace w)) u = Inl e"
  shows "fst (snd (enrich_homeplan ev output_dir (hp, w))) = hp"
  using assms
  by (simp add: enrich_homeplan_def try_except_def homeplan_except_def pure_step_def
        homeplan_try_body_def driver_get_def)

lemma homesites_loop_step:
  assumes "qmi_content q = Some (Some mid)" "build_homesite index mid = Inr hs0"
  shows "homesites_loop ev output_dir index (q # qs) (data, w) =
         homesites_loop ev output_dir (index + 1) qs
           (data\<lparr>homesites := homesites data @
               [fst (snd (enrich_homesite ev output_dir (homesite_card_image (qmi_image q) hs0, w)))]\<rparr>,
            snd (snd (enrich_homesite ev output_dir (homesite_card_image (qmi_image q) hs0, w))))"
proof -
  obtain r hs w' where e:
    "enrich_homesite ev output_dir (homesite_card_image (qmi_image q) hs0, w) = (r, (hs, w'))"
    by (metis surj_pair)
  have "r = None" using enrich_homesite_completes[of ev output_dir "(homesite_card_image (qmi_image q) hs0, w)"] e by simp
  then show ?thesis using assms e by simp
qed

lemma homeplans_loop_step:
  assumes "build_homeplan row = Inr hp0" "plan_card_image (row_image row) hp0 = (None, hp1)"
  shows "homeplans_loop ev output_dir (row # rows) (data, w) =
         homeplans_loop ev output_dir rows
           (data\<lparr>homeplans := homeplans data @ [fst (snd (enrich_homeplan ev output_dir (hp1, w)))]\<rparr>,
            snd (snd (enrich_homeplan ev output_dir (hp1, w))))"
proof -
  obtain r hp w' where e: "enrich_homeplan ev output_dir (hp1, w) = (r, (hp, w'))"
    by (metis surj_pair)
  have "r = None" using enrich_homeplan_completes[of ev output_dir "(hp1, w)"] e by simp
  then show ?thesis using assms e by simp
qed

lemma floors_loop_assigned:
  "hp_includedFeatures (snd (floors_loop is tabs hp)) = hp_includedFeatures hp \<and>
   hp_details (snd (floors_loop is tabs hp)) = hp_details hp"
proof (induction "is" tabs hp rule: floors_loop.induct)
  case (1 tabs hp)
  show ?case by simp
next
  case (2 i "is" tabs hp)
  then show ?case by (simp split: option.splits)
qed

lemma stories_loop_assigned:
  "hp_includedFeatures (snd (stories_loop cols tabs hp)) = hp_includedFeatures hp \<and>
   hp_details (snd (stories_loop cols tabs hp)) = hp_details hp"
proof (induction cols tabs hp rule: stories_loop.induct)
  case (4 h3 span cols tabs hp)
  show ?case
  proof (cases "py_strip h3 = ''Stories''")
    case False
    then show ?thesis using "4.IH"(3) by simp
  next
    case True
    show ?thesis
    proof (cases "py_int (py_strip span)")
      case (Inl e)
      then show ?thesis using True "4.IH"(1) by simp
    next
      case (Inr stories)
      obtain r hp' where f: "floors_loop [1 .. stories] tabs hp = (r, hp')" by (metis surj_pair)
      have k: "hp_includedFeatures hp' = hp_includedFeatures hp \<and> hp_details hp' = hp_details hp"
        using floors_loop_assigned[of "[1 .. stories]" tabs hp] f by simp
      show ?thesis
      proof (cases r)
        case None
        then show ?thesis using True Inr f k by simp
      next
        case (Some e)
        show ?thesis
        proof (cases "e = ValueError")
          case V: True
          show ?thesis
            using True Inr f k Some V "4.IH"(2)[OF True Inr f[symmetric] Some V] by simp
        next
          case V: False
          show ?thesis using True Inr f k Some V by simp
        qed
      qed
    qed
  qed
qed simp_all

lemma enrich_homesite_keeps_body:
  assumes "hs_url hs = Some u" "u \<noteq> []"
  shows "fst (snd (enrich_homesite ev output_dir (hs, w)))
           = fst (snd (homesite_try_body ev output_dir u (hs, w)))"
proof -
  obtain r hs' w' where body: "homesite_try_body ev output_dir u (hs, w) = (r, (hs', w'))"
    by (metis surj_pair)
  show ?thesis using body by (cases r) (simp_all add: enrich_homesite_cases[OF assms])
qed

lemma enrich_homeplan_keeps_body:
  assumes "hp_url hp = Some u" "u \<noteq> []"
  shows "fst (snd (enrich_homeplan ev output_dir (hp, w)))
           = fst (snd (homeplan_try_body ev output_dir u (hp, w)))"
proof -
  obtain r hp' w' where body: "homeplan_try_body ev output_dir u (hp, w) = (r, (hp', w'))"
    by (metis surj_pair)
  show ?thesis using body by (cases r) (simp_all add: enrich_homeplan_cases[OF assms])
qed

lemma enrich_homeplan_assigned:
  assumes "hp_url hp = Some u" "u \<noteq> []" "web ev (length (trace w)) u = Inr pg"
  shows "hp_includedFeatures (fst (snd (enrich_homeplan ev output_dir (hp, w))))
           = included_features (pp_feature_sections (as_plan pg)) \<and>
         pd_half_baths (hp_details (fst (snd (enrich_homeplan ev output_dir (hp, w)))))
           = (case find_labelled_span ''Half Bathrooms'' (pp_columns (as_plan pg)) of
                None \<Rightarrow> pd_half_baths (hp_details hp) | Some t \<Rightarrow> Some t)"
proof -
  let ?hp2 = "set_half_baths (find_labelled_span ''Half Bathrooms'' (pp_columns (as_plan pg)))
                (hp\<lparr>hp_includedFeatures := included_features (pp_feature_sections (as_plan pg))\<rparr>)"
  obtain r hp3 where s: "stories_loop (pp_columns (as_plan pg)) (pp_tabs_content (as_plan pg)) ?hp2 = (r, hp3)"
    by (metis surj_pair)
  have k: "hp_includedFeatures hp3 = hp_includedFeatures ?hp2 \<and> hp_details hp3 = hp_details ?hp2"
    using stories_loop_assigned[of "pp_columns (as_plan pg)" "pp_tabs_content (as_plan pg)" ?hp2] s
    by simp
  have b: "fst (snd (homeplan_try_body ev output_dir u (hp, w))) = hp3"
    using assms(3) s by (cases r) (simp_all add: homeplan_try_body_def driver_get_def Let_def)
  have f: "hp_includedFeatures ?hp2 = included_features (pp_feature_sections (as_plan pg))"
    by (simp add: set_half_baths_def split: option.splits)
  have h: "pd_half_baths (hp_details ?hp2)
             = (case find_labelled_span ''Half Bathrooms'' (pp_columns (as_plan pg)) of
                  None \<Rightarrow> pd_half_baths (hp_details hp) | Some t \<Rightarrow> Some t)"
    by (simp add: set_half_baths_def split: option.splits)
  show ?thesis
    unfolding enrich_homeplan_keeps_body[OF assms(1,2)] b using k f h by simp
qed

text \<open>
  Claim C8. Whenever the enrichment of a home site or of a home plan runs (the record has a
  non-empty detail URL), the snapshot file of that enrichment does not exist when the block
  is left, whether the body of the \<open>try\<close> completed or raised.
\<close>

theorem snapshot_removed:
  "(hs_url hs = Some u \<longrightarrow> u \<noteq> [] \<longrightarrow>
      homesite_html_file output_dir u
        \<notin> files (snd (snd (enrich_homesite ev output_dir (hs, w))))) \<and>
   (hp_url hp = Some v \<longrightarrow> v \<noteq> [] \<longrightarrow>
      plan_html_file output_dir v
        \<notin> files (snd (snd (enrich_homeplan ev output_dir (hp, w)))))"
  using site_snapshot_gone plan_snapshot_gone by blast

theorem snapshot_removed_witness:
  "hs_url ex_homesite = Some ex_site_url \<and> ex_site_url \<noteq> [] \<and>
   fst (homesite_try_body ex_env ''out'' ex_site_url (ex_homesite, ex_world))
     = Some WebDriverException \<and>
   homesite_html_file ''out'' ex_site_url \<in> files ex_world \<and>
   homesite_html_file ''out'' ex_site_url
     \<notin> files (snd (snd (enrich_homesite ex_env ''out'' (ex_homesite, ex_world)))) \<and>
   hp_url (ex_homeplan ex_birch_url) = Some ex_birch_url \<and> ex_birch_url \<noteq> [] \<and>
   fst (homeplan_try_body ex_env ''out'' ex_birch_url (ex_homeplan ex_birch_url, ex_world)) = None \<and>
   plan_html_file ''out'' ex_birch_url
     \<notin> files (snd (snd (enrich_homeplan ex_env ''out'' (ex_homeplan ex_birch_url, ex_world))))"
proof -
  have a: "hs_url ex_homesite = Some ex_site_url" by (simp add: ex_homesite_def)
  have b: "ex_site_url \<noteq> []" by (simp add: ex_site_url_def)
  have c: "hp_url (ex_homeplan ex_birch_url) = Some ex_birch_url" by (simp add: ex_homeplan_def)
  have d: "ex_birch_url \<noteq> []" by (simp add: ex_birch_url_def)
  have e: "fst (homesite_try_body ex_env ''out'' ex_site_url (ex_homesite, ex_world))
             = Some WebDriverException" by code_simp
  have f: "fst (homeplan_try_body ex_env ''out'' ex_birch_url (ex_homeplan ex_birch_url, ex_world))
             = None" by code_simp
  have g: "homesite_html_file ''out'' ex_site_url \<in> files ex_world" by code_simp
  show ?thesis
    using snapshot_removed[of ex_homesite ex_site_url "''out''" ex_env ex_world
            "ex_homeplan ex_birch_url" ex_birch_url] a b c d e f g
    by blast
qed

text \<open>
  Claim C1, as stated, fails in its parenthesis: a plan page with features, a numeric story
  count and a \<open>div.tabs-content\<close> without panel raises AttributeError after the features and
  the half-bath count were assigned, and the record that the handler lets through keeps
  them.
\<close>

theorem enrichment_fields_counterexample:
  "hp_url (ex_homeplan ex_aspen_url) = Some ex_aspen_url \<and>
   fst (homeplan_try_body ex_env ''out'' ex_aspen_url (ex_homeplan ex_aspen_url, ex_world))
     = Some AttributeError \<and>
   hp_includedFeatures
     (fst (snd (enrich_homeplan ex_env ''out'' (ex_homeplan ex_aspen_url, ex_world))))
     = [\<lparr>description = ''Granite'', section_index = 0\<rparr>,
        \<lparr>description = ''Tile'', section_index = 1\<rparr>] \<and>
   pd_half_baths (hp_details
     (fst (snd (enrich_homeplan ex_env ''out'' (ex_homeplan ex_aspen_url, ex_world)))))
     = Some ''1'' \<and>
   map hp_includedFeatures
     (homeplans (fst (snd (homeplans_loop ex_env ''out'' [ex_row ''/plan/aspen'']
                             (ex_data, ex_world)))))
     = [[\<lparr>description = ''Granite'', section_index = 0\<rparr>,
         \<lparr>description = ''Tile'', section_index = 1\<rparr>]]"
  by code_simp

text \<open>
  Claim C1, amended. The enrichment block of a home site and of a home plan never raises:
  whatever the fetch or the extraction raises is handled inside. The record that leaves the
  block has every field that enrichment does not assign as it was built, and is the record
  as built when the fetch itself failed. It is the record as the body of the \<open>try\<close> left
  it, whether the body completed or raised, so enrichment fields assigned before an
  exception keep their values: once a plan's page is fetched, the record carries the
  features and the half-bath count of that page even if the floor-plan step raises. The
  loop appends that record to the parent's list and goes on with the next card or row.
\<close>

theorem enrichment_contained:
  "fst (enrich_homesite ev output_dir (hs, w)) = None \<and>
   fst (enrich_homeplan ev output_dir (hp, w)) = None \<and>
   without_site_enrichment (fst (snd (enrich_homesite ev output_dir (hs, w))))
     = without_site_enrichment hs \<and>
   without_plan_enrichment (fst (snd (enrich_homeplan ev output_dir (hp, w))))
     = without_plan_enrichment hp \<and>
   (hs_url hs = Some u \<longrightarrow> web ev (length (trace w)) u = Inl e \<longrightarrow>
      fst (snd (enrich_homesite ev output_dir (hs, w))) = hs) \<and>
   (hp_url hp = Some v \<longrightarrow> web ev (length (trace w)) v = Inl e \<longrightarrow>
      fst (snd (enrich_homeplan ev output_dir (hp, w))) = hp) \<and>
   (qmi_content q = Some (Some mid) \<longrightarrow> build_homesite index mid = Inr hs0 \<longrightarrow>
      homesites_loop ev output_dir index (q # qs) (data, w) =
        homesites_loop ev output_dir (index + 1) qs
          (data\<lparr>homesites := homesites data @
              [fst (snd (enrich_homesite ev output_dir
                           (homesite_card_image (qmi_image q) hs0, w)))]\<rparr>,
           snd (snd (enrich_homesite ev output_dir
                       (homesite_card_image (qmi_image q) hs0, w))))) \<and>
   (build_homeplan row = Inr hp0 \<longrightarrow> plan_card_image (row_image row) hp0 = (None, hp1) \<longrightarrow>
      homeplans_loop ev output_dir (row # rows) (data, w) =
        homeplans_loop ev output_dir rows
          (data\<lparr>homeplans := homeplans data @
              [fst (snd (enrich_homeplan ev output_dir (hp1, w)))]\<rparr>,
           snd (snd (enrich_homeplan ev output_dir (hp1, w))))) \<and>
   (hs_url hs = Some u \<longrightarrow> u \<noteq> [] \<longrightarrow>
      fst (snd (enrich_homesite ev output_dir (hs, w)))
        = fst (snd (homesite_try_body ev output_dir u (hs, w)))) \<and>
   (hp_url hp = Some v \<longrightarrow> v \<noteq> [] \<longrightarrow>
      fst (snd (enrich_homeplan ev output_dir (hp, w)))
        = fst (snd (homeplan_try_body ev output_dir v (hp, w)))) \<and>
   (hp_url hp = Some v \<longrightarrow> v \<noteq> [] \<longrightarrow> web ev (length (trace w)) v = Inr pg \<longrightarrow>
      hp_includedFeatures (fst (snd (enrich_homeplan ev output_dir (hp, w))))
        = included_features (pp_feature_sections (as_plan pg)) \<and>
      pd_half_baths (hp_details (fst (snd (enrich_homeplan ev output_dir (hp, w)))))
        = (case find_labelled_span ''Half Bathrooms'' (pp_columns (as_plan pg)) of
             None \<Rightarrow> pd_half_baths (hp_details hp) | Some t \<Rightarrow> Some t))"
proof (intro conjI impI)
  show "fst (enrich_homesite ev output_dir (hs, w)) = None"
    by (rule enrich_homesite_completes)
  show "fst (enrich_homeplan ev output_dir (hp, w)) = None"
    by (rule enrich_homeplan_completes)
  show "without_site_enrichment (fst (snd (enrich_homesite ev output_dir (hs, w))))
          = without_site_enrichment hs"
    by (rule enrich_homesite_core)
  show "without_plan_enrichment (fst (snd (enrich_homeplan ev output_dir (hp, w))))
          = without_plan_enrichment hp"
    by (rule enrich_homeplan_core)
next
  assume "hs_url hs = Some u" "web ev (length (trace w)) u = Inl e"
  then show "fst (snd (enrich_homesite ev output_dir (hs, w))) = hs"
    by (rule enrich_homesite_fetch_fails)
next
  assume "hp_url hp = Some v" "web ev (length (trace w)) v = Inl e"
  then show "fst (snd (enrich_homeplan ev output_dir (hp, w))) = hp"
    by (rule enrich_homeplan_fetch_fails)
next
  assume "qmi_content q = Some (Some mid)" "build_homesite index mid = Inr hs0"
  then show "homesites_loop ev output_dir index (q # qs) (data, w) =
        homesites_loop ev output_dir (index + 1) qs
          (data\<lparr>homesites := homesites data @
              [fst (snd (enrich_homesite ev output_dir
                           (homesite_card_image (qmi_image q) hs0, w)))]\<rparr>,
           snd (snd (enrich_homesite ev output_dir
                       (homesite_card_image (qmi_image q) hs0, w))))"
    by (rule homesites_loop_step)
next
  assume "build_homeplan row = Inr hp0" "plan_card_image (row_image row) hp0 = (None, hp1)"
  then show "homeplans_loop ev output_dir (row # rows) (data, w) =
        homeplans_loop ev output_dir rows
          (data\<lparr>homeplans := homeplans data @
              [fst (snd (enrich_homeplan ev output_dir (hp1, w)))]\<rparr>,
           snd (snd (enrich_homeplan ev output_dir (hp1, w))))"
    by (rule homeplans_loop_step)
next
  assume "hs_url hs = Some u" "u \<noteq> []"
  then show "fst (snd (enrich_homesite ev output_dir (hs, w)))
               = fst (snd (homesite_try_body ev output_dir u (hs, w)))"
    by (rule enrich_homesite_keeps_body)
next
  assume "hp_url hp = Some v" "v \<noteq> []"
  then show "fst (snd (enrich_homeplan ev output_dir (hp, w)))
               = fst (snd (homeplan_try_body ev output_dir v (hp, w)))"
    by (rule enrich_homeplan_keeps_body)
next
  assume a: "hp_url hp = Some v" "v \<noteq> []" "web ev (length (trace w)) v = Inr pg"
  show "hp_includedFeatures (fst (snd (enrich_homeplan ev output_dir (hp, w))))
          = included_features (pp_feature_sections (as_plan pg))"
    using enrich_homeplan_assigned[OF a] by (rule conjunct1)
next
  assume a: "hp_url hp = Some v" "v \<noteq> []" "web ev (length (trace w)) v = Inr pg"
  show "pd_half_baths (hp_details (fst (snd (enrich_homeplan ev output_dir (hp, w)))))
          = (case find_labelled_span ''Half Bathrooms'' (pp_columns (as_plan pg)) of
               None \<Rightarrow> pd_half_baths (hp_details hp) | Some t \<Rightarrow> Some t)"
    using enrich_homeplan_assigned[OF a] by (rule conjunct2)
qed

theorem enrichment_contained_witness:
  "hs_url ex_homesite = Some ex_site_url \<and>
   web ex_env (length (trace ex_world)) ex_site_url = Inl WebDriverException \<and>
   fst (enrich_homesite ex_env ''out'' (ex_homesite, ex_world)) = None \<and>
   fst (snd (enrich_homesite ex_env ''out'' (ex_homesite, ex_world))) = ex_homesite \<and>
   qmi_content ex_qmi = Some (Some ex_mid) \<and> build_homesite 0 ex_mid = Inr ex_homesite \<and>
   fst (homesites_loop ex_env ''out'' 0 [ex_qmi, ex_qmi] (ex_data, ex_world)) = None \<and>
   homesites (fst (snd (homesites_loop ex_env ''out'' 0 [ex_qmi] (ex_data, ex_world))))
     = [ex_homesite] \<and>
   build_homeplan (ex_row ''/plan/aspen'') = Inr (ex_homeplan ex_aspen_url) \<and>
   plan_card_image (row_image (ex_row ''/plan/aspen'')) (ex_homeplan ex_aspen_url)
     = (None, ex_homeplan ex_aspen_url) \<and>
   fst (homeplan_try_body ex_env ''out'' ex_aspen_url (ex_homeplan ex_aspen_url, ex_world))
     = Some AttributeError \<and>
   fst (enrich_homeplan ex_env ''out'' (ex_homeplan ex_aspen_url, ex_world)) = None \<and>
   map hp_url (homeplans (fst (snd
     (homeplans_loop ex_env ''out'' [ex_row ''/plan/aspen'', ex_row ''/plan/birch'']
        (ex_data, ex_world)))))
     = [Some ex_aspen_url, Some ex_birch_url] \<and>
   hp_url (ex_homeplan ex_aspen_url) = Some ex_aspen_url \<and> ex_aspen_url \<noteq> [] \<and>
   web ex_env (length (trace ex_world)) ex_aspen_url
     = Inr \<lparr>as_community = ex_community_page, as_site = ex_site_page,
            as_plan = ex_plan_page_no_panel\<rparr> \<and>
   fst (snd (enrich_homeplan ex_env ''out'' (ex_homeplan ex_aspen_url, ex_world)))
     = fst (snd (homeplan_try_body ex_env ''out'' ex_aspen_url
                   (ex_homeplan ex_aspen_url, ex_world))) \<and>
   hp_includedFeatures
     (fst (snd (enrich_homeplan ex_env ''out'' (ex_homeplan ex_aspen_url, ex_world))))
     = included_features (pp_feature_sections ex_plan_page_no_panel) \<and>
   included_features (pp_feature_sections ex_plan_page_no_panel)
     = [\<lparr>description = ''Granite'', section_index = 0\<rparr>,
        \<lparr>description = ''Tile'', section_index = 1\<rparr>] \<and>
   pd_half_baths (hp_details
     (fst (snd (enrich_homeplan ex_env ''out'' (ex_homeplan ex_aspen_url, ex_world)))))
     = Some ''1'' \<and>
   ex_site_url \<noteq> [] \<and>
   fst (snd (enrich_homesite ex_env ''out'' (ex_homesite, ex_world)))
     = fst (snd (homesite_try_body ex_env ''out'' ex_site_url (ex_homesite, ex_world)))"
proof -
  have a: "hs_url ex_homesite = Some ex_site_url" by (simp add: ex_homesite_def)
  have b: "web ex_env (length (trace ex_world)) ex_site_url = Inl WebDriverException"
    by code_simp
  have c: "qmi_content ex_qmi = Some (Some ex_mid)" by (simp add: ex_qmi_def)
  have d: "build_homesite 0 ex_mid = Inr ex_homesite" by code_simp
  have e: "build_homeplan (ex_row ''/plan/aspen'') = Inr (ex_homeplan ex_aspen_url)"
    by code_simp
  have f: "plan_card_image (row_image (ex_row ''/plan/aspen'')) (ex_homeplan ex_aspen_url)
             = (None, ex_homeplan ex_aspen_url)" by code_simp
  have g: "fst (homeplan_try_body ex_env ''out'' ex_aspen_url (ex_homeplan ex_aspen_url, ex_world))
             = Some AttributeError" by code_simp
  have h: "fst (homesites_loop ex_env ''out'' 0 [ex_qmi, ex_qmi] (ex_data, ex_world)) = None"
    by code_simp
  have i: "map hp_url (homeplans (fst (snd
     (homeplans_loop ex_env ''out'' [ex_row ''/plan/aspen'', ex_row ''/plan/birch'']
        (ex_data, ex_world))))) = [Some ex_aspen_url, Some ex_birch_url]"
    by code_simp
  have j: "homesites_loop ex_env ''out'' 1 [] s = (None, s)" for s by simp
  have k: "homesite_card_image (qmi_image ex_qmi) ex_homesite = ex_homesite"
    by (simp add: ex_qmi_def homesite_card_image_def)
  have l: "homesites ex_data = []" by (simp add: ex_data_def initial_data_def)
  note t = enrichment_contained[of ex_env "''out''" ex_homesite ex_world
            "ex_homeplan ex_aspen_url" ex_site_url WebDriverException ex_aspen_url
            ex_qmi ex_mid 0 ex_homesite "[]" ex_data "ex_row ''/plan/aspen''"
            "ex_homeplan ex_aspen_url" "ex_homeplan ex_aspen_url" "[]"
            "\<lparr>as_community = ex_community_page, as_site = ex_site_page,
              as_plan = ex_plan_page_no_panel\<rparr>"]
  have m: "fst (snd (enrich_homesite ex_env ''out'' (ex_homesite, ex_world))) = ex_homesite"
    using t a b by blast
  have n: "homesites (fst (snd (homesites_loop ex_env ''out'' 0 [ex_qmi] (ex_data, ex_world))))
     = [ex_homesite]"
    using t c d by (simp add: j k l m)
  have o: "hp_url (ex_homeplan ex_aspen_url) = Some ex_aspen_url"
    by (simp add: ex_homeplan_def)
  have p: "ex_aspen_url \<noteq> []" by (simp add: ex_aspen_url_def)
  have q: "web ex_env (length (trace ex_world)) ex_aspen_url
     = Inr \<lparr>as_community = ex_community_page, as_site = ex_site_page,
            as_plan = ex_plan_page_no_panel\<rparr>" by code_simp
  have r: "included_features (pp_feature_sections ex_plan_page_no_panel)
     = [\<lparr>description = ''Granite'', section_index = 0\<rparr>,
        \<lparr>description = ''Tile'', section_index = 1\<rparr>]" by code_simp
  have s: "ex_site_url \<noteq> []" by (simp add: ex_site_url_def)
  have u: "fst (snd (enrich_homeplan ex_env ''out'' (ex_homeplan ex_aspen_url, ex_world)))
     = fst (snd (homeplan_try_body ex_env ''out'' ex_aspen_url
                   (ex_homeplan ex_aspen_url, ex_world)))"
    using t o p by blast
  have v: "fst (snd (enrich_homesite ex_env ''out'' (ex_homesite, ex_world)))
     = fst (snd (homesite_try_body ex_env ''out'' ex_site_url (ex_homesite, ex_world)))"
    using t a s by blast
  let ?pg = "\<lparr>as_community = ex_community_page, as_site = ex_site_page,
              as_plan = ex_plan_page_no_panel\<rparr>"
  have x0: "hp_includedFeatures
     (fst (snd (enrich_homeplan ex_env ''out'' (ex_homeplan ex_aspen_url, ex_world))))
     = included_features (pp_feature_sections (as_plan ?pg)) \<and>
     pd_half_baths (hp_details
       (fst (snd (enrich_homeplan ex_env ''out'' (ex_homeplan ex_aspen_url, ex_world)))))
     = (case find_labelled_span ''Half Bathrooms'' (pp_columns (as_plan ?pg)) of
          None \<Rightarrow> pd_half_baths (hp_details (ex_homeplan ex_aspen_url))
        | Some t \<Rightarrow> Some t)"
    using t o p q by blast
  have x: "hp_includedFeatures
     (fst (snd (enrich_homeplan ex_env ''out'' (ex_homeplan ex_aspen_url, ex_world))))
     = included_features (pp_feature_sections ex_plan_page_no_panel) \<and>
     pd_half_baths (hp_details
       (fst (snd (enrich_homeplan ex_env ''out'' (ex_homeplan ex_aspen_url, ex_world)))))
     = (case find_labelled_span ''Half Bathrooms'' (pp_columns ex_plan_page_no_panel) of
          None \<Rightarrow> pd_half_baths (hp_details (ex_homeplan ex_aspen_url))
        | Some t \<Rightarrow> Some t)"
    using x0 by simp
  have y: "(case find_labelled_span ''Half Bathrooms'' (pp_columns ex_plan_page_no_panel) of
          None \<Rightarrow> pd_half_baths (hp_details (ex_homeplan ex_aspen_url))
        | Some t \<Rightarrow> Some t) = Some ''1''" by code_simp
  have z: "pd_half_baths (hp_details
     (fst (snd (enrich_homeplan ex_env ''out'' (ex_homeplan ex_aspen_url, ex_world)))))
     = Some ''1''"
    using x y by simp
  have n1: "fst (enrich_homesite ex_env ''out'' (ex_homesite, ex_world)) = None"
    using t by blast
  have n2: "fst (enrich_homeplan ex_env ''out'' (ex_homeplan ex_aspen_url, ex_world)) = None"
    using t by blast
  show ?thesis using a b c d e f g h i m n o p q r s u v x z n1 n2 by blast
qed

section \<open>Properties of fetch_page\<close>

lemma ex_fetch: "fst (fetch_page ex_env ex_url ''out'' ex_world) = Some ex_result"
  by code_simp

lemma process_urls_materialized:
  assumes "list_all (\<lambda>u. json_file output_dir u \<in> files w) urls"
  shows "process_urls ev urls output_dir w
           = w\<lparr>trace := trace w @ replicate (length urls) (Sleep 2)\<rparr>"
  using assms
proof (induction urls arbitrary: w)
  case Nil
  show ?case by simp
next
  case (Cons url urls)
  have here: "fetch_page ev url output_dir w = (None, w)"
    using Cons.prems by (simp add: fetch_page_def)
  have rest: "list_all (\<lambda>u. json_file output_dir u \<in> files (log_event (Sleep 2) w)) urls"
    using Cons.prems by (simp add: log_event_def)
  show ?case
    using Cons.IH[OF rest] here
    by (simp add: log_event_def replicate_app_Cons_same)
qed

text \<open>
  Claim C2. When the output file derived from the last path segment of the URL exists,
  \<open>fetch_page\<close> returns \<open>None\<close> and leaves the world as it was: no browser is started,
  nothing is fetched and no file is written. Hence the batch loop over URLs whose outputs
  all exist performs nothing but its pause of two seconds after each URL.
\<close>

theorem skip_when_materialized:
  "(json_file output_dir url \<in> files w \<longrightarrow> fetch_page ev url output_dir w = (None, w)) \<and>
   (list_all (\<lambda>u. json_file output_dir u \<in> files w) urls \<longrightarrow>
      process_urls ev urls output_dir w
        = w\<lparr>trace := trace w @ replicate (length urls) (Sleep 2)\<rparr>)"
  using process_urls_materialized by (simp add: fetch_page_def)

theorem skip_when_materialized_witness:
  "json_file ''out'' ex_url \<in> files ex_materialized \<and>
   fetch_page ex_env ex_url ''out'' ex_materialized = (None, ex_materialized) \<and>
   list_all (\<lambda>u. json_file ''out'' u \<in> files ex_materialized) [ex_url, ex_url] \<and>
   process_urls ex_env [ex_url, ex_url] ''out'' ex_materialized
     = ex_materialized\<lparr>trace := [Sleep 2, Sleep 2]\<rparr> \<and>
   fst (fetch_page ex_env ex_url ''out'' ex_world) = Some ex_result"
proof -
  have a: "json_file ''out'' ex_url \<in> files ex_materialized" by code_simp
  have b: "list_all (\<lambda>u. json_file ''out'' u \<in> files ex_materialized) [ex_url, ex_url]"
    using a by simp
  have d: "replicate (length [ex_url, ex_url]) (Sleep 2) = [Sleep 2, Sleep 2]"
    by (simp add: numeral_2_eq_2)
  have e: "trace ex_materialized = []" by (simp add: ex_materialized_def)
  note t = skip_when_materialized[of "''out''" ex_url ex_materialized ex_env "[ex_url, ex_url]"]
  have f: "fetch_page ex_env ex_url ''out'' ex_materialized = (None, ex_materialized)"
    using t a by blast
  have "process_urls ex_env [ex_url, ex_url] ''out'' ex_materialized
          = ex_materialized\<lparr>trace := trace ex_materialized @
               replicate (length [ex_url, ex_url]) (Sleep 2)\<rparr>"
    using t b by blast
  then have g: "process_urls ex_env [ex_url, ex_url] ''out'' ex_materialized
          = ex_materialized\<lparr>trace := [Sleep 2, Sleep 2]\<rparr>"
    unfolding d e by simp
  show ?thesis using a b f g ex_fetch by blast
qed

lemma keeps_then_do:
  assumes "keeps obs f" "keeps obs g"
  shows "keeps obs (then_do f g)"
proof (unfold keeps_def, rule allI)
  fix s
  obtain r s' where f: "f s = (r, s')" by (metis surj_pair)
  have k: "obs s' = obs s" using assms(1) f by (auto simp: keeps_def dest: spec[of _ s])
  show "obs (snd (then_do f g s)) = obs s"
  proof (cases r)
    case None
    then show ?thesis using f k assms(2) by (simp add: then_do_def keeps_def)
  next
    case (Some e)
    then show ?thesis using f k by (simp add: then_do_def)
  qed
qed

lemma keeps_pure_step:
  assumes "\<And>s. obs (f s) = obs s"
  shows "keeps obs (pure_step f)"
  using assms by (simp add: keeps_def pure_step_def)

lemma keeps_on_data:
  assumes "keeps obs f"
  shows "keeps (\<lambda>(data, w). obs data) (on_data f)"
proof (unfold keeps_def, rule allI)
  fix s :: "community \<times> world"
  obtain data w where s: "s = (data, w)" by (cases s) auto
  obtain r data' where f: "f data = (r, data')" by (metis surj_pair)
  have "obs data' = obs data" using assms f by (metis keeps_def snd_conv)
  then show "(case snd (on_data f s) of (data, w) \<Rightarrow> obs data) = (case s of (data, w) \<Rightarrow> obs data)"
    using s f by (simp add: on_data_def)
qed

lemma then_do_NoneD:
  assumes "then_do f g s = (None, s'')"
  shows "\<exists>s'. f s = (None, s') \<and> g s' = (None, s'')"
  using assms by (auto simp: then_do_def split: prod.splits option.splits)

lemma name_step_frame: "keeps frame (name_step soup)"
  by (simp add: keeps_def name_step_def frame_def fixed_part_def split: option.splits)

lemma price_step_frame: "keeps frame (price_step soup)"
  by (simp add: keeps_def price_step_def frame_def fixed_part_def split: option.splits sum.splits)

lemma address_step_frame: "frame (address_step soup data) = frame data"
  by (simp add: address_step_def frame_def fixed_part_def split: option.splits)

lemma description_step_frame: "frame (description_step soup data) = frame data"
  by (simp add: description_step_def frame_def fixed_part_def split: option.splits)

lemma first_image_step_frame: "frame (first_image_step soup data) = frame data"
  by (simp add: first_image_step_def frame_def fixed_part_def split: option.splits list.splits)

lemma coordinates_step_frame: "frame (coordinates_step soup data) = frame data"
  by (simp add: coordinates_step_def frame_def fixed_part_def split: option.splits)

lemma sqft_range_step_frame: "keeps frame (sqft_range_step soup)"
  by (simp add: keeps_def sqft_range_step_def frame_def fixed_part_def
           split: option.splits sum.splits)

lemma ranges_step_frame: "frame (ranges_step soup data) = frame data"
  by (simp add: ranges_step_def frame_def fixed_part_def Let_def split: option.splits)

lemma nearby_step_frame: "frame (nearby_step soup data) = frame data"
  by (simp add: nearby_step_def frame_def fixed_part_def)

lemma scalar_steps_frame: "keeps frame (scalar_steps soup)"
  unfolding scalar_steps_def
  by (intro keeps_then_do keeps_pure_step name_step_frame price_step_frame address_step_frame
        description_step_frame first_image_step_frame coordinates_step_frame
        sqft_range_step_frame ranges_step_frame nearby_step_frame)

lemma hs_id_without: "hs_id (without_site_enrichment hs) = hs_id hs"
  by (simp add: without_site_enrichment_def)

lemma enrich_homesite_id: "hs_id (fst (snd (enrich_homesite ev output_dir (hs, w)))) = hs_id hs"
  using enrich_homesite_core[of ev output_dir hs w] hs_id_without by metis

lemma build_homesite_id:
  assumes "build_homesite index mid = Inr hs0"
  shows "hs_id hs0 = py_str (index + 1)"
  using assms
  by (auto simp: build_homesite_def bind_exn_def Let_def split: sum.splits)

lemma homesite_card_image_id: "hs_id (homesite_card_image img hs) = hs_id hs"
  by (simp add: homesite_card_image_def split: option.splits)

lemma homesites_loop_frame:
  "(case snd (homesites_loop ev output_dir index cards (data, w)) of (data', w') \<Rightarrow>
      (fixed_part data', homeplans data')) = (fixed_part data, homeplans data)"
proof (induction cards arbitrary: index data w)
  case Nil
  show ?case by simp
next
  case (Cons q qs)
  show ?case
  proof (cases "qmi_content q")
    case None
    then show ?thesis using Cons.IH by simp
  next
    case (Some c)
    show ?thesis
    proof (cases c)
      case None
      then show ?thesis using Some Cons.IH by simp
    next
      case mid: (Some mid)
      show ?thesis
      proof (cases "build_homesite index mid")
        case (Inl e)
        then show ?thesis using Some mid by simp
      next
        case (Inr hs0)
        have k: "(fixed_part (data\<lparr>homesites := x\<rparr>), homeplans (data\<lparr>homesites := x\<rparr>))
                   = (fixed_part data, homeplans data)" for x
          by (simp add: fixed_part_def)
        show ?thesis
          using homesites_loop_step[of q mid index hs0 ev output_dir qs data w] Some mid Inr
            Cons.IH k
          by simp
      qed
    qed
  qed
qed

lemma homesites_loop_frameD:
  assumes "homesites_loop ev output_dir index cards (data, w) = (r, (data', w'))"
  shows "fixed_part data' = fixed_part data" "homeplans data' = homeplans data"
  using homesites_loop_frame[of ev output_dir index cards data w] assms by simp_all

lemma homesites_loop_ids:
  assumes "homesites_loop ev output_dir index cards (data, w) = (None, (data', w'))"
  shows "map hs_id (homesites data')
           = map hs_id (homesites data) @ map py_str (emitting_positions index cards)"
  using assms
proof (induction cards arbitrary: index data w)
  case Nil
  then show ?case by simp
next
  case (Cons q qs)
  show ?case
  proof (cases "qmi_content q")
    case None
    then show ?thesis using Cons.IH[of "index + 1" data w] Cons.prems by simp
  next
    case (Some c)
    show ?thesis
    proof (cases c)
      case None
      then show ?thesis using Some Cons.IH[of "index + 1" data w] Cons.prems by simp
    next
      case mid: (Some mid)
      show ?thesis
      proof (cases "build_homesite index mid")
        case (Inl e)
        then show ?thesis using Some mid Cons.prems by simp
      next
        case (Inr hs0)
        let ?r = "enrich_homesite ev output_dir (homesite_card_image (qmi_image q) hs0, w)"
        have id: "hs_id (fst (snd ?r)) = py_str (index + 1)"
          using enrich_homesite_id build_homesite_id[OF Inr] homesite_card_image_id by simp
        have "homesites_loop ev output_dir (index + 1) qs
                (data\<lparr>homesites := homesites data @ [fst (snd ?r)]\<rparr>, snd (snd ?r))
              = (None, (data', w'))"
          using homesites_loop_step[of q mid index hs0 ev output_dir qs data w] Some mid Inr
            Cons.prems by simp
        from Cons.IH[OF this] show ?thesis using Some mid id by simp
      qed
    qed
  qed
qed

lemma homeplans_loop_frame:
  "(case snd (homeplans_loop ev output_dir rows (data, w)) of (data', w') \<Rightarrow>
      (fixed_part data', homesites data')) = (fixed_part data, homesites data)"
proof (induction rows arbitrary: data w)
  case Nil
  show ?case by simp
next
  case (Cons row rows)
  show ?case
  proof (cases "build_homeplan row")
    case (Inl e)
    then show ?thesis by simp
  next
    case (Inr hp0)
    obtain r hp1 where c: "plan_card_image (row_image row) hp0 = (r, hp1)" by (metis surj_pair)
    show ?thesis
    proof (cases r)
      case (Some e)
      then show ?thesis using Inr c by simp
    next
      case None
      have k: "(fixed_part (data\<lparr>homeplans := x\<rparr>), homesites (data\<lparr>homeplans := x\<rparr>))
                 = (fixed_part data, homesites data)" for x
        by (simp add: fixed_part_def)
      show ?thesis
        using homeplans_loop_step[of row hp0 hp1 ev output_dir rows data w] Inr c None
          Cons.IH k
        by simp
    qed
  qed
qed

lemma emitting_positions_all:
  assumes "list_all has_mid cards"
  shows "emitting_positions index cards = map (\<lambda>k. index + int k + 1) [0 ..< length cards]"
  using assms
proof (induction cards arbitrary: index)
  case Nil
  show ?case by simp
next
  case (Cons q qs)
  obtain mid where q: "qmi_content q = Some (Some mid)"
    using Cons.prems by (auto simp: has_mid_def split: option.splits)
  have rest: "list_all has_mid qs" using Cons.prems by simp
  have "[0 ..< length (q # qs)] = 0 # map Suc [0 ..< length qs]"
    by (simp add: upt_conv_Cons map_Suc_upt del: upt_Suc)
  then show ?case using Cons.IH[OF rest, of "index + 1"] q
    by (simp add: comp_def algebra_simps del: upt_Suc)
qed

text \<open>What a run of \<open>assemble\<close> from the initial dictionary leaves.\<close>

lemma assemble_result:
  assumes "assemble ev output_dir soup (initial_data stamp url, w) = (r, (data, w'))"
  shows "fixed_part data = (1, [], [])"
    and "r = None \<Longrightarrow> map hs_id (homesites data) = map py_str (emitting_positions 0 (cards_of soup))"
proof -
  let ?d0 = "initial_data stamp url"
  have d0: "fixed_part ?d0 = (1, [], [])" "homesites ?d0 = []"
    by (simp_all add: initial_data_def fixed_part_def)
  obtain r1 d1 where s1: "scalar_steps soup ?d0 = (r1, d1)" by (metis surj_pair)
  have f1: "frame d1 = frame ?d0"
    using scalar_steps_frame[of soup] s1 by (metis keeps_def snd_conv)
  then have d1: "fixed_part d1 = (1, [], [])" "homesites d1 = []"
    using d0 by (simp_all add: frame_def)
  obtain r2 d2 w2 where s2: "homesites_step ev output_dir soup (d1, w) = (r2, (d2, w2))"
    by (metis surj_pair)
  have d2: "fixed_part d2 = (1, [], [])"
  proof (cases "p_qmi_section soup")
    case None
    then show ?thesis using s2 d1 by (simp add: homesites_step_def)
  next
    case (Some cards)
    then have "homesites_loop ev output_dir 0 cards (d1, w) = (r2, (d2, w2))"
      using s2 by (simp add: homesites_step_def)
    from homesites_loop_frameD(1)[OF this] show ?thesis using d1 by simp
  qed
  have ids2: "map hs_id (homesites d2) = map py_str (emitting_positions 0 (cards_of soup))"
    if "r2 = None"
  proof (cases "p_qmi_section soup")
    case None
    then show ?thesis using s2 d1 by (simp add: homesites_step_def cards_of_def)
  next
    case (Some cards)
    have "homesites_loop ev output_dir 0 cards (d1, w) = (None, (d2, w2))"
      using s2 Some that by (simp add: homesites_step_def)
    from homesites_loop_ids[OF this] show ?thesis using d1 Some by (simp add: cards_of_def)
  qed
  obtain r3 d3 w3 where s3: "homeplans_loop ev output_dir (p_plans soup) (d2, w2) = (r3, (d3, w3))"
    by (metis surj_pair)
  have d3: "fixed_part d3 = fixed_part d2" "homesites d3 = homesites d2"
    using homeplans_loop_frame[of ev output_dir "p_plans soup" d2 w2] s3 by simp_all
  have res: "(r, (data, w')) =
      (case r1 of Some e \<Rightarrow> (Some e, (d1, w))
       | None \<Rightarrow> (case r2 of Some e \<Rightarrow> (Some e, (d2, w2)) | None \<Rightarrow> (r3, (d3, w3))))"
  proof (cases r1)
    case (Some e)
    then show ?thesis using assms s1
      by (auto simp: assemble_def then_do_def on_data_def)
  next
    case None
    show ?thesis
    proof (cases r2)
      case (Some e)
      then show ?thesis using assms s1 s2 None
        by (auto simp: assemble_def then_do_def on_data_def)
    next
      case N2: None
      then show ?thesis using assms s1 s2 s3 None
        by (auto simp: assemble_def then_do_def on_data_def)
    qed
  qed
  show "fixed_part data = (1, [], [])"
    using res d1 d2 d3 by (auto split: option.splits)
  show "map hs_id (homesites data) = map py_str (emitting_positions 0 (cards_of soup))" if "r = None"
    using res that ids2 d3 by (auto split: option.splits)
qed

lemma image_fallback_frame:
  "fixed_part (image_fallback r data) = fixed_part data"
  "homesites (image_fallback r data) = homesites data"
  by (simp_all add: image_fallback_def fixed_part_def Let_def)

lemma fetch_page_SomeD:
  assumes "fst (fetch_page ev url output_dir w) = Some d"
  shows "\<exists>pg stamp w2 d' w3 r.
           web ev (Suc (length (trace w))) url = Inr pg \<and>
           assemble ev output_dir (as_community pg) (initial_data stamp url, w2) = (None, (d', w3)) \<and>
           d = image_fallback r d'"
proof -
  have nf: "json_file output_dir url \<notin> files w"
    using assms by (auto simp: fetch_page_def)
  obtain b wb where body: "fetch_page_body ev url output_dir (log_event SetupDriver w) = (b, wb)"
    by (metis surj_pair)
  have b: "b = Inr d" using assms nf body by (auto simp: fetch_page_def split: sum.splits)
  show ?thesis
  proof (cases "web ev (Suc (length (trace w))) url")
    case (Inl e)
    then show ?thesis using body b
      by (simp add: fetch_page_body_def driver_get_def log_event_def)
  next
    case (Inr pg)
    then show ?thesis using body b
      by (auto simp: fetch_page_body_def driver_get_def log_event_def Let_def
               split: prod.splits option.splits)
  qed
qed

text \<open>
  Claim C10. Every community record that \<open>fetch_page\<close> returns has
  \<open>details.community_count\<close> equal to 1 and empty \<open>amenities\<close> and \<open>collections\<close>: the
  dictionary literal sets them and no later statement assigns them.
\<close>

theorem constant_fields:
  assumes "fst (fetch_page ev url output_dir w) = Some d"
  shows "community_count (c_details d) = 1 \<and> amenities d = [] \<and> collections d = []"
proof -
  from fetch_page_SomeD[OF assms] obtain pg stamp w2 d' w3 r where
    "web ev (Suc (length (trace w))) url = Inr pg"
    and a: "assemble ev output_dir (as_community pg) (initial_data stamp url, w2) = (None, (d', w3))"
    and d: "d = image_fallback r d'"
    by (elim exE conjE)
  have "fixed_part d = (1, [], [])"
    using assemble_result(1)[OF a] d by (simp add: image_fallback_frame)
  then show ?thesis by (simp add: fixed_part_def)
qed

theorem constant_fields_witness:
  "fst (fetch_page ex_env ex_url ''out'' ex_world) = Some ex_result \<and>
   community_count (c_details ex_result) = 1 \<and> amenities ex_result = [] \<and>
   collections ex_result = [] \<and> length (homeplans ex_result) = 1 \<and>
   length (homesites ex_result) = 1"
proof -
  have "length (homeplans ex_result) = 1 \<and> length (homesites ex_result) = 1"
    by (simp add: ex_result_def)
  then show ?thesis using constant_fields[OF ex_fetch] ex_fetch by blast
qed

text \<open>
  Claim C9, as stated, fails: the id comes from the counter of \<open>enumerate\<close> over all cards
  of the section, and a card without \<open>div.content\<close> advances the counter without emitting.
  On a section whose first card is bare, the only home site emitted has id 2.
\<close>

theorem homesite_id_counterexample:
  "fst (fetch_page ex_env ex_url ''out'' ex_world) = Some ex_result \<and>
   cards_of ex_oak_hill = [ex_qmi_bare, ex_qmi] \<and>
   map hs_id (homesites ex_result) = [''2'']"
  using ex_fetch
  by (simp add: ex_result_def cards_of_def ex_oak_hill_def ex_community_page_def)

text \<open>
  Claim C9, amended. In every community record that \<open>fetch_page\<close> returns, the ids of the
  home sites are, in order, the decimal 1-based positions that their cards have among all
  cards of the quick-move-in section, cards that emit nothing included. When every card has
  its \<open>div.content\<close> and \<open>div.mid\<close>, the id of each home site is its 1-based position in the
  list of home sites.
\<close>

theorem homesite_ids:
  assumes "fst (fetch_page ev url output_dir w) = Some d"
    and "web ev (Suc (length (trace w))) url = Inr pg"
  shows "map hs_id (homesites d) = map py_str (emitting_positions 0 (cards_of (as_community pg))) \<and>
         (list_all has_mid (cards_of (as_community pg)) \<longrightarrow>
            map hs_id (homesites d)
              = map (\<lambda>k. py_str (int k + 1)) [0 ..< length (cards_of (as_community pg))])"
proof -
  from fetch_page_SomeD[OF assms(1)] obtain pg' stamp w2 d' w3 r where
    w: "web ev (Suc (length (trace w))) url = Inr pg'"
    and a: "assemble ev output_dir (as_community pg') (initial_data stamp url, w2) = (None, (d', w3))"
    and d: "d = image_fallback r d'"
    by (elim exE conjE)
  have pg: "pg' = pg" using w assms(2) by simp
  have ids: "map hs_id (homesites d) = map py_str (emitting_positions 0 (cards_of (as_community pg)))"
    using assemble_result(2)[OF a refl] d pg by (simp add: image_fallback_frame)
  have "map py_str (emitting_positions 0 cards) = map (\<lambda>k. py_str (int k + 1)) [0 ..< length cards]"
    if "list_all has_mid cards" for cards
    using emitting_positions_all[OF that, of 0] by (simp add: comp_def)
  then show ?thesis using ids by metis
qed

theorem homesite_ids_witness:
  "fst (fetch_page ex_env ex_url ''out'' ex_world) = Some ex_result \<and>
   web ex_env (Suc (length (trace ex_world))) ex_url
     = Inr \<lparr>as_community = ex_oak_hill, as_site = ex_site_page, as_plan = ex_plan_page\<rparr> \<and>
   emitting_positions 0 (cards_of ex_oak_hill) = [2] \<and>
   map hs_id (homesites ex_result) = map py_str [2]"
proof -
  have c: "web ex_env (Suc (length (trace ex_world))) ex_url
     = Inr \<lparr>as_community = ex_oak_hill, as_site = ex_site_page, as_plan = ex_plan_page\<rparr>"
    by code_simp
  have e: "emitting_positions 0 (cards_of ex_oak_hill) = [2]" by code_simp
  show ?thesis using homesite_ids[OF ex_fetch c] ex_fetch c e by simp
qed

section \<open>Properties of the image fallback and of URL normalization\<close>

lemma set_plan_images:
  "set (plan_images plans)
     = {u. \<exists>plan \<in> set plans. pd_image_url (hp_details plan) = Some u \<and> u \<noteq> []}"
  by (induction plans) (auto split: option.splits)

lemma set_site_all_images:
  "set (site_all_images sites)
     = {u. \<exists>site \<in> set sites. hs_image_url site = Some u \<and> u \<noteq> []}
       \<union> (\<Union>site \<in> set sites. set (hs_images site))"
  by (induction sites) (auto split: option.splits)

lemma set_available_images: "set (available_images data) = image_union data"
  by (simp add: available_images_def image_union_def set_plan_images set_site_all_images
        Un_assoc)

text \<open>
  Claim C5. When the top-level image list is empty after assembly and the children carry at
  least one image (a non-empty primary image of a plan or of a site, or a gallery image of a
  site), the fallback leaves a top-level list of exactly one element, which is one of those
  images; when they carry none, the list stays empty.
\<close>

theorem image_fallback_choice:
  assumes "c_images data = []"
  shows "(image_union data \<noteq> {} \<longrightarrow>
            (\<exists>x \<in> image_union data. c_images (image_fallback r data) = [x])) \<and>
         (image_union data = {} \<longrightarrow> c_images (image_fallback r data) = []) \<and>
         (image_union data = {a, b} \<longrightarrow>
            c_images (image_fallback r data) = [a] \<or> c_images (image_fallback r data) = [b])"
proof -
  have general: "(image_union data \<noteq> {} \<longrightarrow>
            (\<exists>x \<in> image_union data. c_images (image_fallback r data) = [x])) \<and>
         (image_union data = {} \<longrightarrow> c_images (image_fallback r data) = [])"
  proof (intro conjI impI)
  assume ne: "image_union data \<noteq> {}"
  then have av: "available_images data \<noteq> []"
    using set_available_images[of data] by auto
  then have "r mod length (available_images data) < length (available_images data)" by simp
  then have "available_images data ! (r mod length (available_images data)) \<in> image_union data"
    using set_available_images[of data] nth_mem by blast
  moreover have "c_images (image_fallback r data)
                   = [available_images data ! (r mod length (available_images data))]"
    using assms av by (simp add: image_fallback_def Let_def)
  ultimately show "\<exists>x \<in> image_union data. c_images (image_fallback r data) = [x]" by blast
next
  assume "image_union data = {}"
  then have "available_images data = []"
    using set_available_images[of data] by simp
    then show "c_images (image_fallback r data) = []"
      using assms by (simp add: image_fallback_def Let_def)
  qed
  have "c_images (image_fallback r data) = [a] \<or> c_images (image_fallback r data) = [b]"
    if "image_union data = {a, b}"
    using general that by auto
  then show ?thesis using general by blast
qed

theorem image_fallback_choice_witness:
  "c_images ex_two_images = [] \<and> image_union ex_two_images = {''A'', ''B''} \<and>
   (\<exists>x \<in> {''A'', ''B''}. c_images (image_fallback 7 ex_two_images) = [x]) \<and>
   c_images (image_fallback 0 ex_two_images) = [''A''] \<and>
   c_images (image_fallback 1 ex_two_images) = [''B''] \<and>
   c_images ex_data = [] \<and> image_union ex_data = {} \<and>
   c_images (image_fallback 7 ex_data) = []"
proof -
  have a: "c_images ex_two_images = []" by code_simp
  have "available_images ex_two_images = [''A'', ''B'']" by code_simp
  then have b: "image_union ex_two_images = {''A'', ''B''}"
    using set_available_images[of ex_two_images] by simp
  have c: "c_images (image_fallback 0 ex_two_images) = [''A'']" by code_simp
  have d: "c_images (image_fallback 1 ex_two_images) = [''B'']" by code_simp
  have e: "c_images ex_data = []" by code_simp
  have "available_images ex_data = []" by code_simp
  then have f: "image_union ex_data = {}"
    using set_available_images[of ex_data] by simp
  have g: "\<exists>x \<in> {''A'', ''B''}. c_images (image_fallback 7 ex_two_images) = [x]"
    using image_fallback_choice[OF a, of 7 "''A''" "''B''"] b by simp
  have h: "c_images (image_fallback 7 ex_data) = []"
    using image_fallback_choice[OF e, of 7 "''A''" "''B''"] f by simp
  show ?thesis using a b c d e f g h by blast
qed

text \<open>
  Claim C6 against the code. Link discovery and the card images pass an absolute address
  through unchanged. The first slide of the community page does not: an absolute source is
  not recorded at all, where a relative one is recorded with the origin in front. The plain
  image of a gallery slide is dropped in the same way, and the link of a card's heading gets
  the origin in front even when it is absolute.
\<close>

theorem absolute_url_dropped:
  "collect_links [Some ''/state/tx/austin'', Some ''https://www.meritagehomes.com/state/az''] []
     = [''https://www.meritagehomes.com/state/tx/austin'',
        ''https://www.meritagehomes.com/state/az''] \<and>
   normalize_src (img_src ex_absolute_img) = Some ''https://cdn.example.com/hero.jpg'' \<and>
   c_images (first_image_step ex_relative_slide_page ex_data)
     = [''https://www.meritagehomes.com/media/hero.jpg''] \<and>
   c_images (first_image_step ex_absolute_slide_page ex_data) = [] \<and>
   site_fallback_image (Some ex_absolute_img) [] = [] \<and>
   link_url (Some ex_absolute_h3)
     = Inr (Some ''https://www.meritagehomes.comhttps://www.meritagehomes.com/plan/aspen'')"
  by code_simp

section \<open>Properties of the pattern extractors\<close>

lemma rmatch_groups:
  assumes "(rest, g') \<in> set (rmatch r s g)"
  shows "length g + min_groups r \<le> length g'"
  using assms
proof (induction r arbitrary: s g rest g')
  case (Lit l)
  then show ?case by (auto split: if_splits)
next
  case (Rep c mn mx)
  then show ?case by (auto simp: Let_def split: if_splits)
next
  case (Seq a b)
  then obtain s1 g1 where a: "(s1, g1) \<in> set (rmatch a s g)"
    and b: "(rest, g') \<in> set (rmatch b s1 g1)" by auto
  show ?case using Seq.IH(1)[OF a] Seq.IH(2)[OF b] by simp
next
  case (Alt a b)
  then show ?case by (auto dest: Alt.IH(1) Alt.IH(2))
next
  case (Opt a)
  then show ?case by (auto dest: Opt.IH)
next
  case (Grp a)
  then obtain g1 where "(rest, g1) \<in> set (rmatch a s g)" "g' = g1 @ [take (length s - length rest) s]"
    by auto
  then show ?case using Grp.IH by fastforce
next
  case Eos
  then show ?case by (auto split: if_splits)
qed

lemma re_search_from_groups:
  assumes "re_search_from r pre s = Some m"
  shows "min_groups r \<le> length (m_groups m)"
  using assms
proof (induction s arbitrary: pre)
  case Nil
  show ?case
  proof (cases "rmatch r [] []")
    case Nil
    then show ?thesis using Nil.prems by simp
  next
    case (Cons x xs)
    obtain rest g where x: "x = (rest, g)" by (cases x) auto
    have "(rest, g) \<in> set (rmatch r [] [])" using Cons x by simp
    from rmatch_groups[OF this] show ?thesis using Nil.prems Cons x by auto
  qed
next
  case (Cons c cs)
  show ?case
  proof (cases "rmatch r (c # cs) []")
    case Nil
    then show ?thesis using Cons by simp
  next
    case (Cons x xs)
    obtain rest g where x: "x = (rest, g)" by (cases x) auto
    have "(rest, g) \<in> set (rmatch r (c # cs) [])" using Cons x by simp
    from rmatch_groups[OF this] show ?thesis using Cons.prems Cons x by auto
  qed
qed

lemma group_ok:
  assumes "re_search r t = Some m" "0 < k" "k \<le> min_groups r"
  shows "group m k = Inr (m_groups m ! (k - 1))"
  using re_search_from_groups[of r "[]" t m] assms by (simp add: re_search_def group_def)

lemma take_all_run:
  assumes "i \<le> length s"
  shows "list_all P (take i s) = (i \<le> length (takeWhile P s))"
  using assms
proof (induction s arbitrary: i)
  case Nil
  then show ?case by simp
next
  case (Cons c cs)
  show ?case
  proof (cases i)
    case 0
    then show ?thesis by simp
  next
    case (Suc j)
    then show ?thesis using Cons.IH[of j] Cons.prems by simp
  qed
qed

lemma run_le_length: "length (takeWhile P s) \<le> length s"
  by (rule length_takeWhile_le)

lemma list_ex_upt: "list_ex P [0 ..< Suc n] = (\<exists>k \<le> n. P k)"
proof -
  have "set [0 ..< Suc n] = {k. k \<le> n}" by (auto simp del: upt_Suc)
  then show ?thesis by (simp only: list_ex_iff) blast
qed

lemma take_eq_length:
  assumes "k \<le> length s" "take k s = l"
  shows "k = length l"
proof -
  have "length (take k s) = k" using assms(1) by simp
  then show ?thesis using assms(2) by simp
qed

lemma rests_Lit: "fst ` set (rmatch (Lit l) s g) = rests (Lit l) s"
proof (cases "py_startswith s l")
  case True
  then have t: "take (length l) s = l" by (simp add: py_startswith_def)
  have le: "length l \<le> length s"
  proof -
    have "length (take (length l) s) = length l" using t by simp
    then show ?thesis by simp
  qed
  have "rests (Lit l) s = {drop (length l) s}"
  proof (rule set_eqI)
    fix x
    show "(x \<in> rests (Lit l) s) = (x \<in> {drop (length l) s})"
    proof
      assume "x \<in> rests (Lit l) s"
      then obtain k where k: "x = drop k s" "k \<le> length s" "take k s = l"
        by (auto simp: rests_def)
      then show "x \<in> {drop (length l) s}" using take_eq_length[OF k(2,3)] by simp
    next
      assume "x \<in> {drop (length l) s}"
      then show "x \<in> rests (Lit l) s" using t le by (auto simp: rests_def)
    qed
  qed
  then show ?thesis using True by simp
next
  case False
  have "rests (Lit l) s = {}"
  proof (rule ccontr)
    assume "rests (Lit l) s \<noteq> {}"
    then obtain k where k: "k \<le> length s" "take k s = l"
      by (auto simp: rests_def)
    have "take (length l) s = l" using take_eq_length[OF k] k(2) by simp
    then show False using False by (simp add: py_startswith_def)
  qed
  then show ?thesis using False by simp
qed

lemma rests_Rep: "fst ` set (rmatch (Rep c mn mx) s g) = rests (Rep c mn mx) s"
proof -
  let ?run = "length (takeWhile (cmem c) s)"
  let ?k = "case mx of None \<Rightarrow> ?run | Some m \<Rightarrow> min m ?run"
  have lhs: "fst ` set (rmatch (Rep c mn mx) s g) = {drop i s | i. mn \<le> i \<and> i \<le> ?k}"
  proof (cases "?k < mn")
    case True
    then show ?thesis by (auto simp: Let_def)
  next
    case False
    have "set (rev [mn ..< Suc ?k]) = {i. mn \<le> i \<and> i \<le> ?k}"
      by (auto simp del: upt_Suc)
    then have "fst ` set (map (\<lambda>i. (drop i s, g)) (rev [mn ..< Suc ?k]))
                 = {drop i s | i. mn \<le> i \<and> i \<le> ?k}"
      by (simp only: set_map image_image fst_conv) blast
    then show ?thesis using False by (simp add: Let_def del: upt_Suc)
  qed
  have kr: "?k \<le> ?run" by (simp split: option.splits)
  have "(mn \<le> i \<and> i \<le> ?k) =
        (i \<le> length s \<and> denotes (Rep c mn mx) (take i s) (drop i s))" for i
  proof (cases "i \<le> length s")
    case True
    then show ?thesis using take_all_run[OF True, of "cmem c"]
      by (auto split: option.splits)
  next
    case False
    then show ?thesis using kr run_le_length[of "cmem c" s] by linarith
  qed
  then have "{drop i s | i. mn \<le> i \<and> i \<le> ?k}
               = {drop i s | i. i \<le> length s \<and> denotes (Rep c mn mx) (take i s) (drop i s)}"
    by (simp only:)
  then show ?thesis unfolding lhs rests_def .
qed


lemma rests_Seq: "rests (Seq a b) s = (\<Union>s' \<in> rests a s. rests b s')"
proof (rule set_eqI, rule iffI)
  fix x
  assume "x \<in> rests (Seq a b) s"
  then obtain k where k: "x = drop k s" "k \<le> length s"
    and d: "denotes (Seq a b) (take k s) (drop k s)"
    by (auto simp: rests_def)
  have len: "length (take k s) = k" using k(2) by simp
  obtain j where j: "j \<le> k"
    and da: "denotes a (take j (take k s)) (drop j (take k s) @ drop k s)"
    and db: "denotes b (drop j (take k s)) (drop k s)"
    using d unfolding denotes.simps list_ex_upt len by blast
  have t1: "take j (take k s) = take j s" using j by (simp add: min_absorb1)
  have t2: "drop j (take k s) @ drop k s = drop j s"
  proof -
    have "drop j (take k s @ drop k s)
            = drop j (take k s) @ drop (j - length (take k s)) (drop k s)"
      by (rule drop_append)
    moreover have "j - length (take k s) = 0" using j len by simp
    ultimately show ?thesis by (simp only: append_take_drop_id drop_0)
  qed
  have t3: "drop j (take k s) = take (k - j) (drop j s)" by (rule drop_take)
  have t4: "drop k s = drop (k - j) (drop j s)" using j by simp
  have "drop j s \<in> rests a s"
    using da j k(2) unfolding t1 t2 by (auto simp: rests_def)
  moreover have "x \<in> rests b (drop j s)"
  proof -
    have "k - j \<le> length (drop j s)" using k(2) j by simp
    moreover have "denotes b (take (k - j) (drop j s)) (drop (k - j) (drop j s))"
      using db unfolding t3 t4 .
    ultimately show ?thesis unfolding rests_def using k(1) t4 by blast
  qed
  ultimately show "x \<in> (\<Union>s' \<in> rests a s. rests b s')" by blast
next
  fix x
  assume "x \<in> (\<Union>s' \<in> rests a s. rests b s')"
  then obtain j i where j: "j \<le> length s" and da: "denotes a (take j s) (drop j s)"
    and i: "i \<le> length (drop j s)"
    and db: "denotes b (take i (drop j s)) (drop i (drop j s))"
    and x: "x = drop i (drop j s)"
    by (auto simp: rests_def)
  let ?k = "j + i"
  have k: "?k \<le> length s" using j i by simp
  have len: "length (take ?k s) = ?k" using k by simp
  have t1: "take j (take ?k s) = take j s" by (simp add: min_absorb1)
  have t2: "drop j (take ?k s) @ drop ?k s = drop j s"
  proof -
    have "drop j (take ?k s @ drop ?k s)
            = drop j (take ?k s) @ drop (j - length (take ?k s)) (drop ?k s)"
      by (rule drop_append)
    moreover have "j - length (take ?k s) = 0" using len by simp
    ultimately show ?thesis by (simp only: append_take_drop_id drop_0)
  qed
  have t3: "drop j (take ?k s) = take i (drop j s)" by (simp add: drop_take)
  have t4: "drop ?k s = drop i (drop j s)" by (simp add: add.commute)
  have A: "denotes a (take j (take ?k s)) (drop j (take ?k s) @ drop ?k s)"
    using da by (simp only: t1 t2)
  have B: "denotes b (drop j (take ?k s)) (drop ?k s)"
    using db by (simp only: t3 t4)
  have "denotes a (take j (take ?k s)) (drop j (take ?k s) @ drop ?k s) \<and>
        denotes b (drop j (take ?k s)) (drop ?k s)"
    using A B by (rule conjI)
  then have "denotes (Seq a b) (take ?k s) (drop ?k s)"
    unfolding denotes.simps list_ex_upt len by (intro exI[of _ j]) simp
  then have "x = drop ?k s \<and> ?k \<le> length s \<and> denotes (Seq a b) (take ?k s) (drop ?k s)"
    using k x t4 by simp
  then have "\<exists>k. x = drop k s \<and> k \<le> length s \<and> denotes (Seq a b) (take k s) (drop k s)"
    by (rule exI)
  then show "x \<in> rests (Seq a b) s"
    unfolding rests_def by simp
qed

lemma rests_rmatch: "fst ` set (rmatch r s g) = rests r s"
proof (induction r arbitrary: s g)
  case (Lit l)
  show ?case by (rule rests_Lit)
next
  case (Rep c mn mx)
  show ?case by (rule rests_Rep)
next
  case (Seq a b)
  have "fst ` set (rmatch (Seq a b) s g)
          = (\<Union>p \<in> set (rmatch a s g). fst ` set (rmatch b (fst p) (snd p)))"
    by (auto simp: image_iff split: prod.splits) (metis fst_conv snd_conv)+
  also have "\<dots> = (\<Union>p \<in> set (rmatch a s g). rests b (fst p))"
    by (simp only: Seq.IH(2))
  also have "\<dots> = (\<Union>s' \<in> fst ` set (rmatch a s g). rests b s')" by simp
  also have "\<dots> = (\<Union>s' \<in> rests a s. rests b s')" by (simp only: Seq.IH(1))
  finally show ?case by (simp only: rests_Seq)
next
  case (Alt a b)
  have "rests (Alt a b) s = rests a s \<union> rests b s" by (auto simp: rests_def)
  then show ?case using Alt.IH by (simp add: image_Un)
next
  case (Opt a)
  have "rests (Opt a) s = rests a s \<union> {s}"
  proof (rule set_eqI, rule iffI)
    fix x
    assume "x \<in> rests (Opt a) s"
    then obtain k where k: "x = drop k s" "k \<le> length s"
      and d: "take k s = [] \<or> denotes a (take k s) (drop k s)"
      by (auto simp: rests_def)
    show "x \<in> rests a s \<union> {s}"
    proof (cases "take k s = []")
      case True
      then have "k = 0 \<or> s = []" by simp
      then show ?thesis using k by auto
    next
      case False
      then show ?thesis using k d by (auto simp: rests_def)
    qed
  next
    fix x
    assume "x \<in> rests a s \<union> {s}"
    then consider "x \<in> rests a s" | "x = s" by blast
    then show "x \<in> rests (Opt a) s"
    proof cases
      case 1
      then show ?thesis by (auto simp: rests_def)
    next
      case 2
      have "s = drop 0 s \<and> 0 \<le> length s \<and> denotes (Opt a) (take 0 s) (drop 0 s)" by simp
      then show ?thesis unfolding rests_def 2 by blast
    qed
  qed
  then show ?case using Opt.IH by (simp add: image_Un)
next
  case (Grp a)
  have "map fst (rmatch (Grp a) s g) = map fst (rmatch a s g)"
    by (simp add: case_prod_beta comp_def)
  then have "set (map fst (rmatch (Grp a) s g)) = set (map fst (rmatch a s g))"
    by (rule arg_cong)
  then have "fst ` set (rmatch (Grp a) s g) = fst ` set (rmatch a s g)"
    by (simp only: set_map)
  moreover have "rests (Grp a) s = rests a s" by (simp add: rests_def)
  ultimately show ?case using Grp.IH by simp
next
  case Eos
  have "rests Eos s = (if s = [] \<or> s = [CHR 0x0A] then {s} else {})"
  proof (rule set_eqI, rule iffI)
    fix x
    assume "x \<in> rests Eos s"
    then obtain k where k: "x = drop k s" "k \<le> length s" "take k s = []"
      and e: "drop k s = [] \<or> drop k s = [CHR 0x0A]"
      by (auto simp: rests_def)
    have "k = 0 \<or> s = []" using k(3) by simp
    then have "x = s" using k(1) by auto
    then show "x \<in> (if s = [] \<or> s = [CHR 0x0A] then {s} else {})" using e k(1) by auto
  next
    fix x
    assume "x \<in> (if s = [] \<or> s = [CHR 0x0A] then {s} else {})"
    then have x: "x = s" and e: "s = [] \<or> s = [CHR 0x0A]" by (auto split: if_splits)
    have "s = drop 0 s \<and> 0 \<le> length s \<and> denotes Eos (take 0 s) (drop 0 s)" using e by simp
    then show "x \<in> rests Eos s" unfolding rests_def x by blast
  qed
  then show ?case by simp
qed


lemma rmatch_Nil_iff: "(rmatch r s g = []) = (rests r s = {})"
proof -
  have "(rmatch r s g = []) = (fst ` set (rmatch r s g) = {})" by simp
  then show ?thesis by (simp only: rests_rmatch)
qed

lemma re_search_from_None_iff:
  "(re_search_from r pre s = None) = (\<forall>i \<le> length s. rests r (drop i s) = {})"
proof (induction s arbitrary: pre)
  case Nil
  have "(re_search_from r pre [] = None) = (rmatch r [] [] = [])"
    by (cases "rmatch r [] []") (auto split: prod.splits)
  then show ?case by (simp add: rmatch_Nil_iff)
next
  case (Cons c cs)
  have "(re_search_from r pre (c # cs) = None)
          = (rmatch r (c # cs) [] = [] \<and> re_search_from r (pre @ [c]) cs = None)"
    by (cases "rmatch r (c # cs) []") (auto split: prod.splits)
  also have "\<dots> = (rests r (c # cs) = {} \<and> (\<forall>i \<le> length cs. rests r (drop i cs) = {}))"
    by (simp only: rmatch_Nil_iff Cons.IH)
  also have "\<dots> = (\<forall>i \<le> length (c # cs). rests r (drop i (c # cs)) = {})"
  proof
    assume h: "rests r (c # cs) = {} \<and> (\<forall>i \<le> length cs. rests r (drop i cs) = {})"
    show "\<forall>i \<le> length (c # cs). rests r (drop i (c # cs)) = {}"
    proof (intro allI impI)
      fix i
      assume "i \<le> length (c # cs)"
      then show "rests r (drop i (c # cs)) = {}" using h by (cases i) auto
    qed
  next
    assume h: "\<forall>i \<le> length (c # cs). rests r (drop i (c # cs)) = {}"
    have "rests r (c # cs) = {}" using h[rule_format, of 0] by simp
    moreover have "rests r (drop i cs) = {}" if "i \<le> length cs" for i
      using h[rule_format, of "Suc i"] that by simp
    ultimately show "rests r (c # cs) = {} \<and> (\<forall>i \<le> length cs. rests r (drop i cs) = {})"
      by blast
  qed
  finally show ?case .
qed

lemma occurs_iff: "occurs r t = (\<exists>i \<le> length t. rests r (drop i t) \<noteq> {})"
proof
  assume "occurs r t"
  then obtain i j where i: "i \<le> length t" and j: "i \<le> j" "j \<le> length t"
    and d: "denotes r (take (j - i) (drop i t)) (drop j t)"
    unfolding occurs_def list_ex_iff by (auto simp: less_Suc_eq_le simp del: upt_Suc)
  have "drop j t = drop (j - i) (drop i t)" using j by simp
  then have "denotes r (take (j - i) (drop i t)) (drop (j - i) (drop i t))" using d by simp
  moreover have "j - i \<le> length (drop i t)" using j by simp
  ultimately have "drop (j - i) (drop i t) \<in> rests r (drop i t)"
    unfolding rests_def by blast
  then show "\<exists>i \<le> length t. rests r (drop i t) \<noteq> {}" using i by blast
next
  assume "\<exists>i \<le> length t. rests r (drop i t) \<noteq> {}"
  then obtain i k where i: "i \<le> length t" and k: "k \<le> length (drop i t)"
    and d: "denotes r (take k (drop i t)) (drop k (drop i t))"
    by (auto simp: rests_def)
  let ?j = "i + k"
  have j: "i \<le> ?j" "?j \<le> length t" using i k by simp_all
  have "denotes r (take (?j - i) (drop i t)) (drop ?j t)" using d by (simp add: add.commute)
  moreover have "?j \<in> set [i ..< Suc (length t)]" using j by (simp del: upt_Suc)
  ultimately have "list_ex (\<lambda>j. denotes r (take (j - i) (drop i t)) (drop j t))
                     [i ..< Suc (length t)]"
    unfolding list_ex_iff by blast
  moreover have "i \<in> set [0 ..< Suc (length t)]" using i by (simp del: upt_Suc)
  ultimately show "occurs r t"
    unfolding occurs_def list_ex_iff[of _ "[0 ..< Suc (length t)]"] by blast
qed

lemma re_search_None_iff: "(re_search r t = None) = (\<not> occurs r t)"
  by (simp only: re_search_def re_search_from_None_iff occurs_iff) blast

lemma extract_price_ok: "\<exists>v. extract_price text = Inr v"
  by (auto simp: extract_price_def group_def split: option.splits)

lemma extract_beds_baths_ok: "\<exists>v. extract_beds_baths text = Inr v"
proof (cases "text")
  case None
  then show ?thesis by (simp add: extract_beds_baths_def)
next
  case (Some t)
  have b: "\<exists>v. (case re_search beds_re t of None \<Rightarrow> Inr None
                  | Some m \<Rightarrow> map_sum id Some (group m 1)) = Inr v"
  proof (cases "re_search beds_re t")
    case None
    then show ?thesis by simp
  next
    case (Some m)
    have "group m 1 = Inr (m_groups m ! (1 - 1))"
      by (rule group_ok[OF Some]) (simp_all add: beds_re_def)
    then show ?thesis using Some by simp
  qed
  have c: "\<exists>v. (case re_search baths_re t of None \<Rightarrow> Inr None
                  | Some m \<Rightarrow> map_sum id Some (group m 1)) = Inr v"
  proof (cases "re_search baths_re t")
    case None
    then show ?thesis by simp
  next
    case (Some m)
    have "group m 1 = Inr (m_groups m ! (1 - 1))"
      by (rule group_ok[OF Some]) (simp_all add: baths_re_def)
    then show ?thesis using Some by simp
  qed
  from b c obtain vb vc where
    "(case re_search beds_re t of None \<Rightarrow> Inr None
      | Some m \<Rightarrow> map_sum id Some (group m 1)) = (Inr vb :: exn + string option)"
    "(case re_search baths_re t of None \<Rightarrow> Inr None
      | Some m \<Rightarrow> map_sum id Some (group m 1)) = (Inr vc :: exn + string option)"
    by blast
  then show ?thesis using Some by (simp add: extract_beds_baths_def Let_def)
qed

lemma extract_sqft_ok: "\<exists>v. extract_sqft text = Inr v"
proof (cases "text")
  case None
  then show ?thesis by (simp add: extract_sqft_def)
next
  case (Some t)
  show ?thesis
  proof (cases "re_search sqft_re (py_lower t)")
    case None
    then show ?thesis using Some by (simp add: extract_sqft_def)
  next
    case m: (Some m)
    have "group m 1 = Inr (m_groups m ! (1 - 1))"
      by (rule group_ok[OF m]) (simp_all add: sqft_re_def)
    then show ?thesis using Some m by (simp add: extract_sqft_def)
  qed
qed

text \<open>
  Claim C7. For every text, including \<open>None\<close> and the empty string, each of the three
  extractors returns a value and raises nothing. On \<open>None\<close> and on the empty string the
  value is \<open>None\<close> (a pair of \<open>None\<close> for beds and baths), and so it is on every text in
  which no substring is a word of the extractor's pattern.
\<close>

theorem extractors_total:
  "(\<exists>v. extract_price text = Inr v) \<and>
   (\<exists>v. extract_beds_baths text = Inr v) \<and>
   (\<exists>v. extract_sqft text = Inr v) \<and>
   extract_price None = Inr None \<and> extract_price (Some []) = Inr None \<and>
   extract_beds_baths None = Inr (None, None) \<and>
   extract_beds_baths (Some []) = Inr (None, None) \<and>
   extract_sqft None = Inr None \<and> extract_sqft (Some []) = Inr None \<and>
   (\<not> occurs price_re t \<longrightarrow> extract_price (Some t) = Inr None) \<and>
   (\<not> occurs beds_re t \<longrightarrow> \<not> occurs baths_re t \<longrightarrow>
      extract_beds_baths (Some t) = Inr (None, None)) \<and>
   (\<not> occurs sqft_re (py_lower t) \<longrightarrow> extract_sqft (Some t) = Inr None)"
proof (intro conjI impI)
  show "\<exists>v. extract_price text = Inr v" by (rule extract_price_ok)
  show "\<exists>v. extract_beds_baths text = Inr v" by (rule extract_beds_baths_ok)
  show "\<exists>v. extract_sqft text = Inr v" by (rule extract_sqft_ok)
  show "extract_price None = Inr None" by (simp add: extract_price_def)
  show "extract_price (Some []) = Inr None" by (simp add: extract_price_def)
  show "extract_beds_baths None = Inr (None, None)" by (simp add: extract_beds_baths_def)
  show "extract_beds_baths (Some []) = Inr (None, None)" by (simp add: extract_beds_baths_def)
  show "extract_sqft None = Inr None" by (simp add: extract_sqft_def)
  show "extract_sqft (Some []) = Inr None" by (simp add: extract_sqft_def)
next
  assume "\<not> occurs price_re t"
  then have "re_search price_re t = None" by (simp add: re_search_None_iff)
  then show "extract_price (Some t) = Inr None" by (simp add: extract_price_def)
next
  assume "\<not> occurs beds_re t" "\<not> occurs baths_re t"
  then have "re_search beds_re t = None" "re_search baths_re t = None"
    by (simp_all add: re_search_None_iff)
  then show "extract_beds_baths (Some t) = Inr (None, None)"
    by (simp add: extract_beds_baths_def)
next
  assume "\<not> occurs sqft_re (py_lower t)"
  then have "re_search sqft_re (py_lower t) = None" by (simp add: re_search_None_iff)
  then show "extract_sqft (Some t) = Inr None" by (simp add: extract_sqft_def)
qed

theorem extractors_total_witness:
  "extract_price (Some ''3 Bed 2.5 Bath 1,500 Sq Ft from $250,000'') = Inr (Some ''$250,000'') \<and>
   extract_beds_baths (Some ''3 Bed 2.5 Bath 1,500 Sq Ft from $250,000'')
     = Inr (Some ''3'', Some ''2.5'') \<and>
   extract_sqft (Some ''3 Bed 2.5 Bath 1,500 Sq Ft from $250,000'') = Inr (Some ''1500'') \<and>
   \<not> occurs price_re ''Coming soon'' \<and> extract_price (Some ''Coming soon'') = Inr None \<and>
   \<not> occurs beds_re ''Coming soon'' \<and> \<not> occurs baths_re ''Coming soon'' \<and>
   extract_beds_baths (Some ''Coming soon'') = Inr (None, None) \<and>
   \<not> occurs sqft_re (py_lower ''Coming soon'') \<and> extract_sqft (Some ''Coming soon'') = Inr None"
proof -
  have a: "extract_price (Some ''3 Bed 2.5 Bath 1,500 Sq Ft from $250,000'') = Inr (Some ''$250,000'')"
    by code_simp
  have b: "extract_beds_baths (Some ''3 Bed 2.5 Bath 1,500 Sq Ft from $250,000'')
     = Inr (Some ''3'', Some ''2.5'')" by code_simp
  have c: "extract_sqft (Some ''3 Bed 2.5 Bath 1,500 Sq Ft from $250,000'') = Inr (Some ''1500'')"
    by code_simp
  have d: "\<not> occurs price_re ''Coming soon''" by code_simp
  have e: "\<not> occurs beds_re ''Coming soon''" by code_simp
  have f: "\<not> occurs baths_re ''Coming soon''" by code_simp
  have g: "\<not> occurs sqft_re (py_lower ''Coming soon'')" by code_simp
  show ?thesis
    using extractors_total[of "Some ''Coming soon''" "''Coming soon''"] a b c d e f g by blast
qed

end
